theory Spec2Isabelle
  imports Complex_Main "HOL-Library.Sublist" "HOL-Library.AList"
begin

section \<open>Python text helpers\<close>

text \<open>
  A Python \<open>str\<close> is modelled as a \<open>string\<close>: a list of characters, one \<open>char\<close> per code
  point, so \<open>length\<close> is Python's \<open>len\<close> (the embedding covers the code points below 256).
\<close>

definition py_isspace :: "char \<Rightarrow> bool" where
  \<comment> \<open>\<open>str.isspace\<close> on one code point below 256: tab, line feed, vertical tab, form feed,
      carriage return, the four separators 0x1C..0x1F, space, NEL (0x85), NBSP (0xA0).\<close>
  "py_isspace c = ((of_char c :: nat) \<in> {9, 10, 11, 12, 13, 28, 29, 30, 31, 32, 133, 160})"

definition py_strip :: "string \<Rightarrow> string" where
  \<comment> \<open>\<open>s.strip()\<close>: whitespace removed at both ends.\<close>
  "py_strip s = rev (dropWhile py_isspace (rev (dropWhile py_isspace s)))"

fun py_contains :: "string \<Rightarrow> string \<Rightarrow> bool" where
  \<comment> \<open>\<open>sub in s\<close> on strings: \<open>sub\<close> occurs in \<open>s\<close> as a contiguous piece.\<close>
  "py_contains sub [] = (sub = [])"
| "py_contains sub (c # cs) = (prefix sub (c # cs) \<or> py_contains sub cs)"

definition py_slice_to :: "int \<Rightarrow> 'a list \<Rightarrow> 'a list" where
  \<comment> \<open>\<open>xs[:k]\<close>: a negative \<open>k\<close> counts from the end.\<close>
  "py_slice_to k xs =
     (if 0 \<le> k then take (nat k) xs else take (length xs - nat (- k)) xs)"

definition digit_char :: "nat \<Rightarrow> char" where
  \<comment> \<open>the decimal digit \<open>d < 10\<close> as a character\<close>
  "digit_char d = ''0123456789'' ! d"

fun str_nat :: "nat \<Rightarrow> string" where
  "str_nat n = (if n < 10 then [digit_char n] else str_nat (n div 10) @ [digit_char (n mod 10)])"

declare str_nat.simps [simp del]

definition str_int :: "int \<Rightarrow> string" where
  \<comment> \<open>\<open>str(n)\<close> of a Python integer, as an f-string renders it.\<close>
  "str_int n = (if n < 0 then CHR ''-'' # str_nat (nat (- n)) else str_nat (nat n))"

section \<open>Configuration filter\<close>

text \<open>
  A Python \<open>dict\<close> is an association list with distinct keys, in insertion order.
  An absent configuration (\<open>None\<close>) is \<open>None\<close>.
\<close>

definition SEARCH_API_PARAMS :: "(string \<times> string list) list" where
  "SEARCH_API_PARAMS =
     [(''exa'', [''max_characters'', ''num_results'', ''include_domains'', ''exclude_domains'',
                 ''subpages'']),
      (''tavily'', []),
      (''perplexity'', []),
      (''arxiv'', [''load_max_docs'', ''get_full_documents'', ''load_all_available_meta'']),
      (''pubmed'', [''top_k_results'', ''email'', ''api_key'', ''doc_content_chars_max''])]"

definition accepted_params :: "string \<Rightarrow> string list" where
  \<comment> \<open>\<open>SEARCH_API_PARAMS.get(search_api, [])\<close>\<close>
  "accepted_params search_api =
     (case map_of SEARCH_API_PARAMS search_api of None \<Rightarrow> [] | Some ks \<Rightarrow> ks)"

definition select_params :: "string list \<Rightarrow> (string \<times> 'v) list \<Rightarrow> (string \<times> 'v) list" where
  \<comment> \<open>\<open>{k: v for k, v in config.items() if k in accepted}\<close>\<close>
  "select_params accepted config = filter (\<lambda>(k, v). k \<in> set accepted) config"

definition get_search_params :: "string \<Rightarrow> (string \<times> 'v) list option \<Rightarrow> (string \<times> 'v) list" where
  "get_search_params search_api search_api_config =
     (case search_api_config of
        None \<Rightarrow> []
      | Some config \<Rightarrow>
          if config = [] then [] else select_params (accepted_params search_api) config)"

section \<open>Result schema\<close>

datatype raw_field = Missing | Null | Text string
  \<comment> \<open>the \<open>raw_content\<close> entry of a result: key absent, \<open>None\<close>, or a text\<close>

record search_result =
  title :: string
  url :: string
  content :: string
  score :: rat
  raw_content :: raw_field

record query_response =
  query :: string
  follow_up_questions :: "string option"
  answer :: "string option"
  images :: "string list"
  results :: "search_result list"
  error :: "string option"

text \<open>
  A score is a Python float, a double, represented by the rational number it denotes. The
  constants 1.0 and 0.5 are doubles; the scores the metadata adapters compute are rounded
  as the code's operations round them (\<open>double_round\<close> below).
\<close>

section \<open>Aggregator and formatter\<close>

definition collect_sources :: "query_response list \<Rightarrow> search_result list" where
  \<comment> \<open>\<open>for response in search_response: sources_list.extend(response['results'])\<close>\<close>
  "collect_sources search_response = concat (map results search_response)"

definition unique_sources :: "search_result list \<Rightarrow> (string \<times> search_result) list" where
  \<comment> \<open>\<open>{source['url']: source for source in sources_list}\<close>: an assignment to a key
      already present replaces its value and leaves the key where it is; a new key goes to
      the end.\<close>
  "unique_sources sources_list =
     foldl (\<lambda>d source. AList.update (url source) source d) [] sources_list"

definition dict_values :: "('k \<times> 'v) list \<Rightarrow> 'v list" where
  \<comment> \<open>\<open>d.values()\<close>, in the dictionary's order\<close>
  "dict_values d = map snd d"

definition raw_text :: "raw_field \<Rightarrow> string" where
  \<comment> \<open>\<open>source.get('raw_content', '')\<close>, then \<open>None\<close> replaced by \<open>''\<close>\<close>
  "raw_text r = (case r of Missing \<Rightarrow> [] | Null \<Rightarrow> [] | Text t \<Rightarrow> t)"

definition truncation_marker :: string where
  "truncation_marker = ''... [truncated]''"

definition limit_raw :: "int \<Rightarrow> raw_field \<Rightarrow> string" where
  "limit_raw max_tokens_per_source r =
     (let char_limit = max_tokens_per_source * 4;
          raw = raw_text r
      in if int (length raw) > char_limit
         then py_slice_to char_limit raw @ truncation_marker
         else raw)"

definition format_source :: "int \<Rightarrow> bool \<Rightarrow> search_result \<Rightarrow> string" where
  \<comment> \<open>what one iteration of the formatting loop appends to \<open>formatted_text\<close>\<close>
  "format_source max_tokens_per_source include_raw_content source =
     ''Source '' @ title source @ '':\<newline>===\<newline>''
     @ ''URL: '' @ url source @ ''\<newline>===\<newline>''
     @ ''Most relevant content from source: '' @ content source @ ''\<newline>===\<newline>''
     @ (if include_raw_content
        then ''Full source content limited to '' @ str_int max_tokens_per_source
             @ '' tokens: '' @ limit_raw max_tokens_per_source (raw_content source)
             @ ''\<newline>\<newline>''
        else [])"

definition formatted_text :: "int \<Rightarrow> bool \<Rightarrow> search_result list \<Rightarrow> string" where
  \<comment> \<open>the text built by the loop, before the final \<open>strip()\<close>\<close>
  "formatted_text max_tokens_per_source include_raw_content sources =
     foldl (\<lambda>txt source. txt @ format_source max_tokens_per_source include_raw_content source)
       ''Sources:\<newline>\<newline>'' sources"

definition deduplicate_and_format_sources :: "query_response list \<Rightarrow> int \<Rightarrow> bool \<Rightarrow> string" where
  "deduplicate_and_format_sources search_response max_tokens_per_source include_raw_content =
     py_strip (formatted_text max_tokens_per_source include_raw_content
                 (dict_values (unique_sources (collect_sources search_response))))"

section \<open>Provider adapters: errors, effects, the external provider\<close>

datatype exn = ValueError string | IndexError string | ProviderError string
  \<comment> \<open>a raised exception with its message; \<open>ProviderError\<close> is whatever the provider's
      client raises (transport error, bad status, malformed body)\<close>

definition str_exn :: "exn \<Rightarrow> string" where
  \<comment> \<open>\<open>str(e)\<close>\<close>
  "str_exn e = (case e of ValueError m \<Rightarrow> m | IndexError m \<Rightarrow> m | ProviderError m \<Rightarrow> m)"

datatype event = Sleep rat | Request string
  \<comment> \<open>what an adapter does to the outside, in order: \<open>sleep(seconds)\<close>, or one call to
      the provider for a query\<close>

text \<open>
  The provider is a parameter of each adapter, \<open>api i q\<close>: what the provider's client
  does when it is called for the query \<open>q\<close> at position \<open>i\<close> of the batch, either raise
  (\<open>Inl\<close>) or return its payload (\<open>Inr\<close>). Pauses are Python floats in the source and exact
  rationals here.
\<close>

definition error_response :: "string \<Rightarrow> exn \<Rightarrow> query_response" where
  \<comment> \<open>the placeholder appended for a failed query\<close>
  "error_response q e =
     \<lparr>query = q, follow_up_questions = None, answer = None, images = [], results = [],
      error = Some (str_exn e)\<rparr>"

subsection \<open>perplexity_search\<close>

record pplx_data =
  pplx_content :: string           \<comment> \<open>\<open>data["choices"][0]["message"]["content"]\<close>\<close>
  pplx_citations :: "string list option"   \<comment> \<open>\<open>data["citations"]\<close>, \<open>None\<close> when the key is absent\<close>

definition secondary_citation :: "nat \<times> string \<Rightarrow> search_result" where
  "secondary_citation ic =
     \<lparr>title = ''Perplexity Search, Source '' @ str_nat (fst ic), url = snd ic,
      content = ''See primary source for full content'', score = 1 / 2, raw_content = Null\<rparr>"

definition perplexity_results :: "pplx_data \<Rightarrow> exn + search_result list" where
  \<comment> \<open>the results list of one query; \<open>citations[0]\<close> raises on an empty list\<close>
  "perplexity_results data =
     (let citations = (case pplx_citations data of
                         None \<Rightarrow> [''https://perplexity.ai'']
                       | Some cs \<Rightarrow> cs)
      in case citations of
           [] \<Rightarrow> Inl (IndexError ''list index out of range'')
         | c # rest \<Rightarrow>
             Inr (\<lparr>title = ''Perplexity Search, Source 1'', url = c,
                    content = pplx_content data, score = 1,
                    raw_content = Text (pplx_content data)\<rparr>
                  # map secondary_citation (zip [2 ..< 2 + length rest] rest)))"

fun perplexity_loop ::
  "(nat \<Rightarrow> string \<Rightarrow> exn + pplx_data) \<Rightarrow> nat \<Rightarrow> string list
     \<Rightarrow> query_response list \<times> event list \<Rightarrow> (exn + query_response list) \<times> event list" where
  "perplexity_loop api i [] (search_docs, trace) = (Inr search_docs, trace)"
| "perplexity_loop api i (q # qs) (search_docs, trace) =
     (case api i q of
        Inl e \<Rightarrow> (Inl e, trace @ [Request q])
      | Inr data \<Rightarrow>
          (case perplexity_results data of
             Inl e \<Rightarrow> (Inl e, trace @ [Request q])
           | Inr rs \<Rightarrow>
               perplexity_loop api (Suc i) qs
                 (search_docs @ [\<lparr>query = q, follow_up_questions = None, answer = None,
                                  images = [], results = rs, error = None\<rparr>],
                  trace @ [Request q])))"

definition perplexity_search ::
  "(nat \<Rightarrow> string \<Rightarrow> exn + pplx_data) \<Rightarrow> string list
     \<Rightarrow> (exn + query_response list) \<times> event list" where
  "perplexity_search api search_queries = perplexity_loop api 0 search_queries ([], [])"

subsection \<open>exa_search\<close>

datatype exa_item =
  ExaItem (item_title: string) (item_url: string) (item_text: string) (item_summary: string)
          (item_score: rat) (item_image: "string option") (item_subpages: "exa_item list")
  \<comment> \<open>one entry of the provider's \<open>results\<close>, each field as \<open>get_value\<close> reads it with its
      default\<close>

definition truthy :: "'a list option \<Rightarrow> bool" where
  \<comment> \<open>Python truth of an optional list or text: neither \<open>None\<close> nor empty\<close>
  "truthy v = (case v of None \<Rightarrow> False | Some xs \<Rightarrow> xs \<noteq> [])"

definition combine_content :: "string \<Rightarrow> string \<Rightarrow> string" where
  "combine_content summary_content text_content =
     (if summary_content \<noteq> []
      then (if text_content \<noteq> []
            then summary_content @ ''\<newline>\<newline>'' @ text_content
            else summary_content)
      else text_content)"

definition result_entry :: "exa_item \<Rightarrow> search_result" where
  "result_entry r =
     \<lparr>title = item_title r, url = item_url r,
      content = combine_content (item_summary r) (item_text r),
      score = item_score r, raw_content = Text (item_text r)\<rparr>"

fun add_unseen :: "exa_item list \<Rightarrow> string list \<times> search_result list
                     \<Rightarrow> string list \<times> search_result list" where
  \<comment> \<open>one pass over items: an item whose URL is in \<open>seen_urls\<close> is skipped, any other is
      recorded and appended to \<open>formatted_results\<close>\<close>
  "add_unseen [] (seen_urls, formatted_results) = (seen_urls, formatted_results)"
| "add_unseen (r # rs) (seen_urls, formatted_results) =
     (if item_url r \<in> set seen_urls
      then add_unseen rs (seen_urls, formatted_results)
      else add_unseen rs (seen_urls @ [item_url r], formatted_results @ [result_entry r]))"

fun collect_images :: "exa_item list \<Rightarrow> string list \<Rightarrow> string list" where
  "collect_images [] imgs = imgs"
| "collect_images (r # rs) imgs =
     (case item_image r of
        Some img \<Rightarrow>
          if img \<noteq> [] \<and> img \<notin> set imgs then collect_images rs (imgs @ [img])
          else collect_images rs imgs
      | None \<Rightarrow> collect_images rs imgs)"

definition format_exa_response :: "int option \<Rightarrow> string \<Rightarrow> exa_item list \<Rightarrow> query_response" where
  "format_exa_response subpages q results_list =
     (let main = add_unseen results_list ([], []);
          full = (if subpages \<noteq> None
                  then add_unseen (concat (map item_subpages results_list)) main
                  else main)
      in \<lparr>query = q, follow_up_questions = None, answer = None,
          images = collect_images results_list [], results = snd full, error = None\<rparr>)"

definition process_query ::
  "(nat \<Rightarrow> string \<Rightarrow> exn + exa_item list) \<Rightarrow> int option \<Rightarrow> nat \<Rightarrow> string
     \<Rightarrow> exn + query_response" where
  "process_query api subpages i q =
     (case api i q of
        Inl e \<Rightarrow> Inl e
      | Inr results_list \<Rightarrow> Inr (format_exa_response subpages q results_list))"

fun exa_loop ::
  "(nat \<Rightarrow> string \<Rightarrow> exn + exa_item list) \<Rightarrow> int option \<Rightarrow> nat \<Rightarrow> string list
     \<Rightarrow> query_response list \<times> event list \<Rightarrow> query_response list \<times> event list" where
  "exa_loop api subpages i [] (search_docs, trace) = (search_docs, trace)"
| "exa_loop api subpages i (q # qs) (search_docs, trace) =
     (let trace1 = (if i > 0 then trace @ [Sleep (1 / 4)] else trace) @ [Request q]
      in case process_query api subpages i q of
           Inr result \<Rightarrow> exa_loop api subpages (Suc i) qs (search_docs @ [result], trace1)
         | Inl e \<Rightarrow>
             exa_loop api subpages (Suc i) qs
               (search_docs @ [error_response q e],
                if py_contains ''429'' (str_exn e) then trace1 @ [Sleep 1] else trace1))"

definition exa_search ::
  "(nat \<Rightarrow> string \<Rightarrow> exn + exa_item list) \<Rightarrow> string list
     \<Rightarrow> string list option \<Rightarrow> string list option \<Rightarrow> int option
     \<Rightarrow> (exn + query_response list) \<times> event list" where
  "exa_search api search_queries include_domains exclude_domains subpages =
     (if truthy include_domains \<and> truthy exclude_domains
      then (Inl (ValueError ''Cannot specify both include_domains and exclude_domains''), [])
      else (let (search_docs, trace) = exa_loop api subpages 0 search_queries ([], [])
            in (Inr search_docs, trace)))"

subsection \<open>Synthetic scores of the metadata adapters\<close>

text \<open>
  The scores are Python floats, that is IEEE 754 doubles. A double is represented by the
  rational number it denotes, and an arithmetic operation of the code is the exact operation
  followed by \<open>double_round\<close>, the rounding to the nearest double with ties to the even
  significand. (A result beyond the largest double is outside the embedding.)
\<close>

definition round_half_even :: "rat \<Rightarrow> int" where
  \<comment> \<open>the nearest integer, the even one of two that are equally near\<close>
  "round_half_even y =
     (let f = \<lfloor>y\<rfloor>; r = y - of_int f
      in if r < 1 / 2 then f
         else if 1 / 2 < r then f + 1
         else if even f then f else f + 1)"

fun scale_up :: "nat \<Rightarrow> rat \<Rightarrow> nat" where
  \<comment> \<open>how often \<open>a\<close> is doubled to reach \<open>2 ^ 52\<close>, at most \<open>cap\<close> times: with the cap
      1074, the smallest exponent of a double, this is the \<open>k\<close> for which the doubles around
      \<open>a < 2 ^ 53\<close> are the multiples of \<open>2 ^ - k\<close> (1074 for the subnormal ones)\<close>
  "scale_up cap a =
     (if cap = 0 \<or> 4503599627370496 \<le> a then 0 else Suc (scale_up (cap - 1) (2 * a)))"

fun scale_down :: "nat \<Rightarrow> rat \<Rightarrow> nat" where
  \<comment> \<open>how often \<open>a\<close> is halved to come below \<open>2 ^ 53\<close>, at most \<open>cap\<close> times (971 for the
      largest exponent of a double): the doubles around \<open>a \<ge> 2 ^ 53\<close> are the multiples of
      \<open>2 ^ k\<close>\<close>
  "scale_down cap a =
     (if cap = 0 \<or> a < 9007199254740992 then 0 else Suc (scale_down (cap - 1) (a / 2)))"

declare scale_up.simps [simp del] scale_down.simps [simp del]

definition double_round :: "rat \<Rightarrow> rat" where
  "double_round x =
     (let a = \<bar>x\<bar>
      in if a < 9007199254740992
         then (let k = scale_up 1074 a
               in sgn x * of_int (round_half_even (a * 2 ^ k)) / 2 ^ k)
         else (let k = scale_down 971 a
               in sgn x * of_int (round_half_even (a / 2 ^ k)) * 2 ^ k))"

definition score_decrement :: "nat \<Rightarrow> rat" where
  \<comment> \<open>\<open>1.0 / (len(docs) + 1) if docs else 0\<close>: the integer is converted to a double, then
      divided\<close>
  "score_decrement doc_count =
     (if doc_count \<noteq> 0 then double_round (1 / double_round (of_nat (doc_count + 1))) else 0)"

definition rank_score :: "nat \<Rightarrow> nat \<Rightarrow> rat" where
  \<comment> \<open>\<open>base_score - (i * score_decrement)\<close> with \<open>base_score = 1.0\<close>: \<open>i\<close> is converted to a
      double, the product is rounded, then the difference\<close>
  "rank_score doc_count i =
     double_round (1 - double_round (double_round (of_nat i) * score_decrement doc_count))"

definition join_lines :: "string list \<Rightarrow> string" where
  \<comment> \<open>the content parts joined with a line feed between them\<close>
  "join_lines parts = (case parts of [] \<Rightarrow> [] | p # ps \<Rightarrow> p @ concat (map (\<lambda>x. CHR 10 # x) ps))"

definition join_comma :: "string list \<Rightarrow> string" where
  \<comment> \<open>\<open>', '.join(xs)\<close>\<close>
  "join_comma xs = (case xs of [] \<Rightarrow> [] | p # ps \<Rightarrow> p @ concat (map (\<lambda>x. '', '' @ x) ps))"

subsection \<open>arxiv_search_async\<close>

record arxiv_doc =
  ax_entry_id :: "string option"
  ax_title :: "string option"
  ax_summary :: "string option"
  ax_authors :: "string option"
  ax_published :: "string option"
    \<comment> \<open>the text \<open>published_str\<close> is computed from (\<open>isoformat()\<close> or \<open>str\<close>); \<open>None\<close> when the
        entry is absent or false\<close>
  ax_primary_category :: "string option"
  ax_categories :: "string list option"
  ax_comment :: "string option"
  ax_journal_ref :: "string option"
  ax_doi :: "string option"
  ax_links :: "string list option"
  ax_page_content :: string

definition present :: "string \<Rightarrow> string option \<Rightarrow> string list" where
  \<comment> \<open>\<open>if key in metadata: content_parts.append(label + metadata[key])\<close>\<close>
  "present label v = (case v of None \<Rightarrow> [] | Some x \<Rightarrow> [label @ x])"

definition nonempty :: "string \<Rightarrow> string option \<Rightarrow> string list" where
  \<comment> \<open>\<open>if key in metadata and metadata[key]: content_parts.append(label + metadata[key])\<close>\<close>
  "nonempty label v = (case v of None \<Rightarrow> [] | Some x \<Rightarrow> if x \<noteq> [] then [label @ x] else [])"

definition first_pdf :: "string list option \<Rightarrow> string list" where
  \<comment> \<open>the first link with \<open>'pdf' in link\<close>, if the links are present\<close>
  "first_pdf links =
     (case links of
        None \<Rightarrow> []
      | Some ls \<Rightarrow> (case filter (py_contains ''pdf'') ls of [] \<Rightarrow> [] | l # _ \<Rightarrow> [''PDF: '' @ l]))"

definition arxiv_content :: "arxiv_doc \<Rightarrow> string" where
  "arxiv_content d =
     join_lines
       (present ''Summary: '' (ax_summary d)
        @ present ''Authors: '' (ax_authors d)
        @ nonempty ''Published: '' (ax_published d)
        @ present ''Primary Category: '' (ax_primary_category d)
        @ (case ax_categories d of
             None \<Rightarrow> []
           | Some cs \<Rightarrow> if cs \<noteq> [] then [''Categories: '' @ join_comma cs] else [])
        @ nonempty ''Comment: '' (ax_comment d)
        @ nonempty ''Journal Reference: '' (ax_journal_ref d)
        @ nonempty ''DOI: '' (ax_doi d)
        @ first_pdf (ax_links d))"

definition arxiv_result :: "bool \<Rightarrow> nat \<Rightarrow> nat \<times> arxiv_doc \<Rightarrow> search_result" where
  "arxiv_result get_full_documents doc_count idoc =
     (let d = snd idoc
      in \<lparr>title = (case ax_title d of None \<Rightarrow> [] | Some t \<Rightarrow> t),
          url = (case ax_entry_id d of None \<Rightarrow> [] | Some u \<Rightarrow> u),
          content = arxiv_content d,
          score = rank_score doc_count (fst idoc),
          raw_content = (if get_full_documents then Text (ax_page_content d) else Null)\<rparr>)"

definition arxiv_process_single_query ::
  "(nat \<Rightarrow> string \<Rightarrow> exn + arxiv_doc list) \<Rightarrow> bool \<Rightarrow> nat \<Rightarrow> string
     \<Rightarrow> exn + query_response" where
  \<comment> \<open>the whole body is inside \<open>try\<close> / \<open>except Exception\<close>: the function returns in both
      cases and raises in none\<close>
  "arxiv_process_single_query api get_full_documents i q =
     (case api i q of
        Inr docs \<Rightarrow>
          Inr \<lparr>query = q, follow_up_questions = None, answer = None, images = [],
               results = map (arxiv_result get_full_documents (length docs))
                           (zip [0 ..< length docs] docs),
               error = None\<rparr>
      | Inl e \<Rightarrow> Inr (error_response q e))"

definition rate_limited :: "exn \<Rightarrow> bool" where
  \<comment> \<open>\<open>"429" in str(e) or "Too Many Requests" in str(e)\<close>\<close>
  "rate_limited e =
     (py_contains ''429'' (str_exn e) \<or> py_contains ''Too Many Requests'' (str_exn e))"

fun arxiv_loop ::
  "(nat \<Rightarrow> string \<Rightarrow> exn + arxiv_doc list) \<Rightarrow> bool \<Rightarrow> nat \<Rightarrow> string list
     \<Rightarrow> query_response list \<times> event list \<Rightarrow> query_response list \<times> event list" where
  "arxiv_loop api full i [] (search_docs, trace) = (search_docs, trace)"
| "arxiv_loop api full i (q # qs) (search_docs, trace) =
     (let trace1 = (if i > 0 then trace @ [Sleep 3] else trace) @ [Request q]
      in case arxiv_process_single_query api full i q of
           Inr result \<Rightarrow> arxiv_loop api full (Suc i) qs (search_docs @ [result], trace1)
         | Inl e \<Rightarrow>
             arxiv_loop api full (Suc i) qs
               (search_docs @ [error_response q e],
                if rate_limited e then trace1 @ [Sleep 5] else trace1))"

definition arxiv_search_async ::
  "(nat \<Rightarrow> string \<Rightarrow> exn + arxiv_doc list) \<Rightarrow> string list \<Rightarrow> bool
     \<Rightarrow> query_response list \<times> event list" where
  "arxiv_search_async api search_queries get_full_documents =
     arxiv_loop api get_full_documents 0 search_queries ([], [])"

subsection \<open>pubmed_search_async\<close>

record pubmed_doc =
  pm_uid :: "string option"
  pm_title :: "string option"
  pm_published :: "string option"
  pm_copyright :: "string option"
  pm_summary :: "string option"

definition pubmed_content :: "pubmed_doc \<Rightarrow> string" where
  "pubmed_content d =
     join_lines
       (nonempty ''Published: '' (pm_published d)
        @ nonempty ''Copyright Information: '' (pm_copyright d)
        @ nonempty ''Summary: '' (pm_summary d))"

definition pubmed_result :: "nat \<Rightarrow> nat \<times> pubmed_doc \<Rightarrow> search_result" where
  "pubmed_result doc_count idoc =
     (let d = snd idoc
      in \<lparr>title = (case pm_title d of None \<Rightarrow> [] | Some t \<Rightarrow> t),
          url = (case pm_uid d of
                   None \<Rightarrow> []
                 | Some uid \<Rightarrow>
                     if uid \<noteq> [] then ''https://pubmed.ncbi.nlm.nih.gov/'' @ uid @ ''/'' else []),
          content = pubmed_content d,
          score = rank_score doc_count (fst idoc),
          raw_content = Text (case pm_summary d of None \<Rightarrow> [] | Some t \<Rightarrow> t)\<rparr>)"

definition pubmed_process_single_query ::
  "(nat \<Rightarrow> string \<Rightarrow> exn + pubmed_doc list) \<Rightarrow> nat \<Rightarrow> string \<Rightarrow> exn + query_response" where
  \<comment> \<open>as for arXiv, the body is inside \<open>try\<close> / \<open>except Exception\<close>: an exception of the
      provider becomes a returned response with \<open>error\<close> set\<close>
  "pubmed_process_single_query api i q =
     (case api i q of
        Inr docs \<Rightarrow>
          Inr \<lparr>query = q, follow_up_questions = None, answer = None, images = [],
               results = map (pubmed_result (length docs)) (zip [0 ..< length docs] docs),
               error = None\<rparr>
      | Inl e \<Rightarrow> Inr (error_response q e))"

definition pubmed_response ::
  "(nat \<Rightarrow> string \<Rightarrow> exn + pubmed_doc list) \<Rightarrow> nat \<Rightarrow> string \<Rightarrow> query_response" where
  \<comment> \<open>what \<open>process_single_query\<close> returns for the query at position \<open>j\<close>: it returns in
      both branches\<close>
  "pubmed_response api j q =
     (case api j q of
        Inr docs \<Rightarrow>
          \<lparr>query = q, follow_up_questions = None, answer = None, images = [],
           results = map (pubmed_result (length docs)) (zip [0 ..< length docs] docs),
           error = None\<rparr>
      | Inl e \<Rightarrow> error_response q e)"

record pubmed_state =
  search_docs :: "query_response list"
  delay :: rat
  trace :: "event list"

fun pubmed_loop ::
  "(nat \<Rightarrow> string \<Rightarrow> exn + pubmed_doc list) \<Rightarrow> nat \<Rightarrow> string list
     \<Rightarrow> pubmed_state \<Rightarrow> pubmed_state" where
  "pubmed_loop api i [] st = st"
| "pubmed_loop api i (q # qs) st =
     (let trace1 = (if i > 0 then trace st @ [Sleep (delay st)] else trace st) @ [Request q]
      in case pubmed_process_single_query api i q of
           Inr result \<Rightarrow>
             pubmed_loop api (Suc i) qs
               \<lparr>search_docs = search_docs st @ [result],
                delay = (if results result \<noteq> [] \<and> length (results result) > 0
                         then max (1 / 2) (delay st * (9 / 10)) else delay st),
                trace = trace1\<rparr>
         | Inl e \<Rightarrow>
             \<comment> \<open>the \<open>except Exception\<close> branch of the main loop\<close>
             pubmed_loop api (Suc i) qs
               \<lparr>search_docs = search_docs st @ [error_response q e],
                delay = min 5 (delay st * (3 / 2)),
                trace = trace1\<rparr>)"

definition pubmed_run ::
  "(nat \<Rightarrow> string \<Rightarrow> exn + pubmed_doc list) \<Rightarrow> string list \<Rightarrow> pubmed_state" where
  \<comment> \<open>the state of the main loop after the batch: \<open>delay = 1.0\<close> at the start\<close>
  "pubmed_run api search_queries =
     pubmed_loop api 0 search_queries \<lparr>search_docs = [], delay = 1, trace = []\<rparr>"

definition pubmed_search_async ::
  "(nat \<Rightarrow> string \<Rightarrow> exn + pubmed_doc list) \<Rightarrow> string list
     \<Rightarrow> query_response list \<times> event list" where
  "pubmed_search_async api search_queries =
     (let st = pubmed_run api search_queries in (search_docs st, trace st))"

section \<open>Properties of the configuration filter\<close>

lemma map_of_select_params:
  "map_of (select_params accepted config) = map_of config |` set accepted"
  by (induction config) (auto simp: select_params_def restrict_map_def fun_eq_iff)

lemma get_search_params_select:
  "get_search_params search_api (Some config) = select_params (accepted_params search_api) config"
  by (simp add: get_search_params_def select_params_def)

lemma accepted_params_unknown:
  assumes "search_api \<notin> fst ` set SEARCH_API_PARAMS"
  shows "accepted_params search_api = []"
proof -
  from assms have "map_of SEARCH_API_PARAMS search_api = None"
    by (simp add: map_of_eq_None_iff)
  then show ?thesis by (simp add: accepted_params_def)
qed

text \<open>
  C7. The configuration filter returns exactly the entries of the configuration whose key is
  in the provider's accepted-key list, in the configuration's order: as a mapping, the result
  is the configuration restricted to the accepted keys. An absent configuration gives the
  empty mapping; a provider identifier that the table does not know has the empty
  accepted-key list and gives the empty mapping for every configuration. With the accepted
  keys a, b and the configuration {a: 1, c: 2} the comprehension keeps {a: 1}.
\<close>

theorem get_search_params_filters:
  "get_search_params search_api None = []
   \<and> get_search_params search_api (Some config)
       = filter (\<lambda>(k, v). k \<in> set (accepted_params search_api)) config
   \<and> map_of (get_search_params search_api (Some config))
       = map_of config |` set (accepted_params search_api)
   \<and> (search_api \<notin> fst ` set SEARCH_API_PARAMS
        \<longrightarrow> accepted_params search_api = [] \<and> get_search_params search_api c = [])
   \<and> select_params [''a'', ''b''] [(''a'', 1 :: int), (''c'', 2)] = [(''a'', 1)]"
proof -
  have absent: "get_search_params search_api None = []"
    by (simp add: get_search_params_def)
  have subset: "get_search_params search_api (Some config)
       = filter (\<lambda>(k, v). k \<in> set (accepted_params search_api)) config"
    by (simp add: get_search_params_def select_params_def)
  have restrict: "map_of (get_search_params search_api (Some config))
       = map_of config |` set (accepted_params search_api)"
    by (simp only: get_search_params_select map_of_select_params)
  have unknown: "accepted_params search_api = [] \<and> get_search_params search_api c = []"
    if "search_api \<notin> fst ` set SEARCH_API_PARAMS"
    using accepted_params_unknown [OF that]
    by (simp add: get_search_params_def select_params_def split: option.splits)
  have example: "select_params [''a'', ''b''] [(''a'', 1 :: int), (''c'', 2)] = [(''a'', 1)]"
    by (simp add: select_params_def)
  from absent subset restrict unknown example show ?thesis by blast
qed

theorem get_search_params_filters_witness:
  "''google'' \<notin> fst ` set SEARCH_API_PARAMS
   \<and> get_search_params ''google'' (Some [(''num_results'', 5 :: int)]) = []
   \<and> get_search_params ''exa'' (Some [(''num_results'', 5 :: int), (''api_key'', 7)])
       = [(''num_results'', 5)]"
proof -
  have unknown: "''google'' \<notin> fst ` set SEARCH_API_PARAMS"
    by (simp add: SEARCH_API_PARAMS_def)
  with get_search_params_filters [of "''google''" _ "Some [(''num_results'', 5 :: int)]"]
  have "get_search_params ''google'' (Some [(''num_results'', 5 :: int)]) = []"
    by blast
  moreover from get_search_params_filters
      [of "''exa''" "[(''num_results'', 5 :: int), (''api_key'', 7)]"]
  have "get_search_params ''exa'' (Some [(''num_results'', 5 :: int), (''api_key'', 7)])
       = filter (\<lambda>(k, v). k \<in> set (accepted_params ''exa''))
           [(''num_results'', 5 :: int), (''api_key'', 7)]"
    by blast
  then have "get_search_params ''exa'' (Some [(''num_results'', 5 :: int), (''api_key'', 7)])
       = [(''num_results'', 5)]"
    by (simp add: accepted_params_def SEARCH_API_PARAMS_def)
  ultimately show ?thesis using unknown by blast
qed

section \<open>Properties of the formatter\<close>

lemma unique_sources_snoc:
  "unique_sources (xs @ [x]) = AList.update (url x) x (unique_sources xs)"
  by (simp add: unique_sources_def)

lemma unique_sources_keys:
  "map fst (unique_sources xs) = rev (remdups (rev (map url xs)))"
proof (induction xs rule: rev_induct)
  case Nil
  show ?case by (simp add: unique_sources_def)
next
  case (snoc x xs)
  then show ?case by (auto simp: unique_sources_snoc update_keys)
qed

lemma unique_sources_distinct: "distinct (map fst (unique_sources xs))"
  by (simp add: unique_sources_keys)

lemma unique_sources_lookup:
  "map_of (unique_sources xs) k =
     (if k \<in> url ` set xs then Some (last (filter (\<lambda>t. url t = k) xs)) else None)"
proof (induction xs rule: rev_induct)
  case Nil
  show ?case by (simp add: unique_sources_def)
next
  case (snoc x xs)
  then show ?case by (auto simp: unique_sources_snoc update_conv')
qed

lemma unique_sources_entry:
  assumes "(k, s) \<in> set (unique_sources xs)"
  shows "k = url s \<and> s = last (filter (\<lambda>t. url t = k) xs)"
proof -
  from assms have "map_of (unique_sources xs) k = Some s"
    using unique_sources_distinct by simp
  then have b: "k \<in> url ` set xs" "s = last (filter (\<lambda>t. url t = k) xs)"
    by (auto simp: unique_sources_lookup split: if_splits)
  then have "filter (\<lambda>t. url t = k) xs \<noteq> []"
    by (auto simp: filter_empty_conv)
  then have "last (filter (\<lambda>t. url t = k) xs) \<in> set (filter (\<lambda>t. url t = k) xs)"
    by (rule last_in_set)
  with b show ?thesis by auto
qed

lemma kept_urls:
  "map url (dict_values (unique_sources xs)) = rev (remdups (rev (map url xs)))"
proof -
  have "map url (dict_values (unique_sources xs)) = map fst (unique_sources xs)"
    using unique_sources_entry [of _ _ xs] by (auto simp: dict_values_def)
  then show ?thesis by (simp add: unique_sources_keys)
qed

lemma kept_is_last:
  assumes "s \<in> set (dict_values (unique_sources xs))"
  shows "s = last (filter (\<lambda>t. url t = url s) xs)"
proof -
  from assms have "s \<in> snd ` set (unique_sources xs)"
    by (simp only: dict_values_def set_map)
  then obtain p where p: "p \<in> set (unique_sources xs)" "s = snd p"
    by blast
  then have "(fst p, s) \<in> set (unique_sources xs)"
    by simp
  from unique_sources_entry [OF this]
  have a: "fst p = url s" and b: "s = last (filter (\<lambda>t. url t = fst p) xs)"
    by blast+
  from b show ?thesis unfolding a .
qed

lemma formatted_text_concat:
  "formatted_text n inc ss = ''Sources:\<newline>\<newline>'' @ concat (map (format_source n inc) ss)"
proof -
  have "foldl (\<lambda>txt source. txt @ format_source n inc source) acc ss
          = acc @ concat (map (format_source n inc) ss)" for acc
    by (induction ss arbitrary: acc) auto
  then show ?thesis by (simp add: formatted_text_def)
qed

text \<open>
  C1 (as the code has it). The formatter emits one block for each URL of the merged result
  set and no URL twice; the blocks stand in the order in which the URLs are first met; the
  block of a URL shows the last entry met with that URL (the dictionary assignment
  overwrites: last write wins), and earlier entries with the same URL are dropped.
\<close>

theorem dedup_last_write_wins:
  "deduplicate_and_format_sources search_response n inc
     = py_strip (''Sources:\<newline>\<newline>''
         @ concat (map (format_source n inc)
                     (dict_values (unique_sources (collect_sources search_response)))))
   \<and> distinct (map url (dict_values (unique_sources (collect_sources search_response))))
   \<and> map url (dict_values (unique_sources (collect_sources search_response)))
       = rev (remdups (rev (map url (collect_sources search_response))))
   \<and> (\<forall>s \<in> set (dict_values (unique_sources (collect_sources search_response))).
         s = last (filter (\<lambda>t. url t = url s) (collect_sources search_response)))"
proof -
  let ?xs = "collect_sources search_response"
  have "deduplicate_and_format_sources search_response n inc
     = py_strip (''Sources:\<newline>\<newline>''
         @ concat (map (format_source n inc) (dict_values (unique_sources ?xs))))"
    by (simp only: deduplicate_and_format_sources_def formatted_text_concat)
  moreover have "distinct (map url (dict_values (unique_sources ?xs)))"
    by (simp only: kept_urls distinct_rev distinct_remdups)
  moreover note kept_urls [of ?xs]
  moreover have "\<forall>s \<in> set (dict_values (unique_sources ?xs)).
         s = last (filter (\<lambda>t. url t = url s) ?xs)"
    using kept_is_last by blast
  ultimately show ?thesis by blast
qed

theorem dedup_last_write_wins_witness:
  "map url (dict_values (unique_sources (collect_sources
      [\<lparr>query = ''q1'', follow_up_questions = None, answer = None, images = [],
        results = [\<lparr>title = ''First'', url = ''https://e.org/a'', content = ''A'', score = 1,
                    raw_content = Null\<rparr>,
                   \<lparr>title = ''Other'', url = ''https://e.org/b'', content = ''C'', score = 1,
                    raw_content = Null\<rparr>],
        error = None\<rparr>,
       \<lparr>query = ''q2'', follow_up_questions = None, answer = None, images = [],
        results = [\<lparr>title = ''Second'', url = ''https://e.org/a'', content = ''B'', score = 1,
                    raw_content = Null\<rparr>],
        error = None\<rparr>])))
   = [''https://e.org/a'', ''https://e.org/b'']"
  using dedup_last_write_wins
      [of "[\<lparr>query = ''q1'', follow_up_questions = None, answer = None, images = [],
        results = [\<lparr>title = ''First'', url = ''https://e.org/a'', content = ''A'', score = 1,
                    raw_content = Null\<rparr>,
                   \<lparr>title = ''Other'', url = ''https://e.org/b'', content = ''C'', score = 1,
                    raw_content = Null\<rparr>],
        error = None\<rparr>,
       \<lparr>query = ''q2'', follow_up_questions = None, answer = None, images = [],
        results = [\<lparr>title = ''Second'', url = ''https://e.org/a'', content = ''B'', score = 1,
                    raw_content = Null\<rparr>],
        error = None\<rparr>]" 5 False]
  by (simp add: collect_sources_def)

text \<open>
  C1 as the specification states it (first write wins) fails: two entries with the same URL
  and the contents A and B, in this order, give one block, and it shows B.
\<close>

theorem dedup_first_write_counterexample:
  "deduplicate_and_format_sources
     [\<lparr>query = ''q1'', follow_up_questions = None, answer = None, images = [],
       results = [\<lparr>title = ''First'', url = ''https://e.org/a'', content = ''A'', score = 1,
                   raw_content = Null\<rparr>],
       error = None\<rparr>,
      \<lparr>query = ''q2'', follow_up_questions = None, answer = None, images = [],
       results = [\<lparr>title = ''Second'', url = ''https://e.org/a'', content = ''B'', score = 1,
                   raw_content = Null\<rparr>],
       error = None\<rparr>] 5 False
   = ''Sources:\<newline>\<newline>Source Second:\<newline>===\<newline>URL: https://e.org/a\<newline>===\<newline>Most relevant content from source: B\<newline>===''"
  by (simp add: deduplicate_and_format_sources_def formatted_text_def dict_values_def
        unique_sources_def collect_sources_def format_source_def py_strip_def py_isspace_def)

subsection \<open>Truncation of the raw content\<close>

lemma py_strip_trailing:
  assumes "s \<noteq> []" "\<not> py_isspace (hd s)"
  shows "py_strip s @ rev (takeWhile py_isspace (rev s)) = s"
proof -
  from assms have "dropWhile py_isspace s = s" by (cases s) auto
  then have "py_strip s = rev (dropWhile py_isspace (rev s))" by (simp add: py_strip_def)
  then have "py_strip s @ rev (takeWhile py_isspace (rev s))
               = rev (takeWhile py_isspace (rev s) @ dropWhile py_isspace (rev s))"
    by (simp only: rev_append)
  then show ?thesis by (simp only: takeWhile_dropWhile_id rev_rev_ident)
qed

lemma sublist_before_padding:
  assumes eq: "xs @ ws = pre @ piece @ post"
    and ne: "piece \<noteq> []" and lp: "\<not> P (last piece)" and sp: "\<forall>c\<in>set ws. P c"
  shows "sublist piece xs"
proof -
  from eq have "xs @ ws = (pre @ piece) @ post" by simp
  then have "\<exists>us. (xs = (pre @ piece) @ us \<and> us @ ws = post)
                \<or> (xs @ us = pre @ piece \<and> ws = us @ post)"
    by (simp only: append_eq_append_conv2)
  then obtain us where "(xs = (pre @ piece) @ us \<and> us @ ws = post)
                \<or> (xs @ us = pre @ piece \<and> ws = us @ post)"
    by blast
  then show ?thesis
  proof
    assume "xs = (pre @ piece) @ us \<and> us @ ws = post"
    then have "xs = pre @ piece @ us" by simp
    then show ?thesis unfolding sublist_def by blast
  next
    assume a: "xs @ us = pre @ piece \<and> ws = us @ post"
    show ?thesis
    proof (cases "us = []")
      case True
      with a have "xs = pre @ piece @ []" by simp
      then show ?thesis unfolding sublist_def by blast
    next
      case False
      then have "last us = last (xs @ us)" by simp
      also have "\<dots> = last piece" using a ne by simp
      finally have "last piece \<in> set ws"
        using a False by (metis last_in_set Un_iff set_append)
      with sp lp show ?thesis by blast
    qed
  qed
qed

lemma limit_raw_nonneg:
  assumes "0 \<le> n"
  shows "limit_raw n r =
     (case r of
        Text raw \<Rightarrow>
          if nat (n * 4) < length raw then take (nat (n * 4)) raw @ ''... [truncated]'' else raw
      | _ \<Rightarrow> [])"
  using assms
  by (cases r) (auto simp: limit_raw_def raw_text_def py_slice_to_def truncation_marker_def Let_def)

lemma output_padding:
  "\<exists>ws. (\<forall>c\<in>set ws. py_isspace c)
     \<and> deduplicate_and_format_sources search_response n inc @ ws
         = ''Sources:\<newline>\<newline>''
           @ concat (map (format_source n inc)
                       (dict_values (unique_sources (collect_sources search_response))))"
proof -
  let ?doc = "formatted_text n inc (dict_values (unique_sources (collect_sources search_response)))"
  have ne: "?doc \<noteq> []" by (simp add: formatted_text_concat)
  have "hd ?doc = CHR ''S''" by (simp add: formatted_text_concat)
  then have "\<not> py_isspace (hd ?doc)" by (simp add: py_isspace_def)
  from py_strip_trailing [OF ne this]
  have "deduplicate_and_format_sources search_response n inc
          @ rev (takeWhile py_isspace (rev ?doc)) = ?doc"
    by (simp only: deduplicate_and_format_sources_def)
  moreover have "\<forall>c\<in>set (rev (takeWhile py_isspace (rev ?doc))). py_isspace c"
    by (auto dest: set_takeWhileD)
  ultimately show ?thesis unfolding formatted_text_concat by blast
qed

lemma piece_in_output:
  assumes src: "source \<in> set (dict_values (unique_sources (collect_sources search_response)))"
    and blk: "format_source n inc source = a @ piece @ b"
    and ne: "piece \<noteq> []" and lp: "\<not> py_isspace (last piece)"
  shows "sublist piece (deduplicate_and_format_sources search_response n inc)"
proof -
  let ?kept = "dict_values (unique_sources (collect_sources search_response))"
  from output_padding obtain ws where ws: "\<forall>c\<in>set ws. py_isspace c"
    and doc: "deduplicate_and_format_sources search_response n inc @ ws
         = ''Sources:\<newline>\<newline>'' @ concat (map (format_source n inc) ?kept)"
    by blast
  from src obtain ys zs where "?kept = ys @ source # zs"
    by (auto dest: split_list)
  then have "concat (map (format_source n inc) ?kept)
      = concat (map (format_source n inc) ys) @ (a @ piece @ b)
        @ concat (map (format_source n inc) zs)"
    by (simp add: blk)
  with doc have "deduplicate_and_format_sources search_response n inc @ ws
      = (''Sources:\<newline>\<newline>'' @ concat (map (format_source n inc) ys) @ a) @ piece
        @ (b @ concat (map (format_source n inc) zs))"
    by simp
  from sublist_before_padding [OF this ne lp ws] show ?thesis .
qed


lemma format_source_raw:
  assumes "0 \<le> n"
  shows "format_source n True source =
     ''Source '' @ title source @ '':\<newline>===\<newline>''
     @ ''URL: '' @ url source @ ''\<newline>===\<newline>''
     @ ''Most relevant content from source: '' @ content source @ ''\<newline>===\<newline>''
     @ ''Full source content limited to '' @ str_int n @ '' tokens: ''
     @ (case raw_content source of
          Text raw \<Rightarrow>
            if nat (n * 4) < length raw then take (nat (n * 4)) raw @ ''... [truncated]''
            else raw
        | _ \<Rightarrow> [])
     @ ''\<newline>\<newline>''"
  by (simp only: format_source_def limit_raw_nonneg [OF assms] if_True)

text \<open>
  C3 (as the code has it). With raw-content inclusion enabled and a token budget \<open>n \<ge> 0\<close>, the document the
  formatter builds is the header followed by one block per kept source, and the raw part of
  a block is: the first \<open>4 * n\<close> characters of the raw content followed by the marker
  \<open>... [truncated]\<close> when the raw content is longer than \<open>4 * n\<close> characters; the whole
  raw content and no marker otherwise; the empty text and no marker when the raw content is
  absent or \<open>None\<close>. The returned text is this document without the whitespace at its end
  (the final \<open>strip()\<close>). It contains the cut raw content with its marker for every source
  that is cut, and the whole raw content for every source whose raw content fits and does
  not end in whitespace.
\<close>

theorem truncation_law:
  assumes "0 \<le> n"
  shows
    "(\<exists>ws. (\<forall>c\<in>set ws. py_isspace c)
        \<and> deduplicate_and_format_sources search_response n True @ ws
            = ''Sources:\<newline>\<newline>''
              @ concat (map (\<lambda>source.
                     ''Source '' @ title source @ '':\<newline>===\<newline>''
                     @ ''URL: '' @ url source @ ''\<newline>===\<newline>''
                     @ ''Most relevant content from source: '' @ content source
                     @ ''\<newline>===\<newline>''
                     @ ''Full source content limited to '' @ str_int n @ '' tokens: ''
                     @ (case raw_content source of
                          Text raw \<Rightarrow>
                            if nat (n * 4) < length raw
                            then take (nat (n * 4)) raw @ ''... [truncated]''
                            else raw
                        | _ \<Rightarrow> [])
                     @ ''\<newline>\<newline>'')
                  (dict_values (unique_sources (collect_sources search_response)))))
     \<and> (\<forall>source \<in> set (dict_values (unique_sources (collect_sources search_response))).
          \<forall>raw. raw_content source = Text raw \<longrightarrow>
            (nat (n * 4) < length raw \<longrightarrow>
               sublist ('' tokens: '' @ take (nat (n * 4)) raw @ ''... [truncated]'')
                 (deduplicate_and_format_sources search_response n True))
            \<and> (\<not> nat (n * 4) < length raw \<and> raw \<noteq> [] \<and> \<not> py_isspace (last raw) \<longrightarrow>
               sublist ('' tokens: '' @ raw)
                 (deduplicate_and_format_sources search_response n True)))"
proof -
  let ?kept = "dict_values (unique_sources (collect_sources search_response))"
  let ?block = "\<lambda>source.
                     ''Source '' @ title source @ '':\<newline>===\<newline>''
                     @ ''URL: '' @ url source @ ''\<newline>===\<newline>''
                     @ ''Most relevant content from source: '' @ content source
                     @ ''\<newline>===\<newline>''
                     @ ''Full source content limited to '' @ str_int n @ '' tokens: ''
                     @ (case raw_content source of
                          Text raw \<Rightarrow>
                            if nat (n * 4) < length raw
                            then take (nat (n * 4)) raw @ ''... [truncated]''
                            else raw
                        | _ \<Rightarrow> [])
                     @ ''\<newline>\<newline>''"
  have eq: "?block = format_source n True"
    by (rule ext) (rule format_source_raw [OF assms, symmetric])
  have document: "\<exists>ws. (\<forall>c\<in>set ws. py_isspace c)
        \<and> deduplicate_and_format_sources search_response n True @ ws
            = ''Sources:\<newline>\<newline>'' @ concat (map ?block ?kept)"
    unfolding eq by (rule output_padding)
  have pieces: "\<forall>source \<in> set ?kept.
          \<forall>raw. raw_content source = Text raw \<longrightarrow>
            (nat (n * 4) < length raw \<longrightarrow>
               sublist ('' tokens: '' @ take (nat (n * 4)) raw @ ''... [truncated]'')
                 (deduplicate_and_format_sources search_response n True))
            \<and> (\<not> nat (n * 4) < length raw \<and> raw \<noteq> [] \<and> \<not> py_isspace (last raw) \<longrightarrow>
               sublist ('' tokens: '' @ raw)
                 (deduplicate_and_format_sources search_response n True))"
  proof (intro ballI allI impI conjI)
    fix source raw
    assume src: "source \<in> set ?kept" and raw: "raw_content source = Text raw"
    {
      assume long: "nat (n * 4) < length raw"
      let ?piece = "'' tokens: '' @ take (nat (n * 4)) raw @ ''... [truncated]''"
      have "format_source n True source =
         (''Source '' @ title source @ '':\<newline>===\<newline>''
          @ ''URL: '' @ url source @ ''\<newline>===\<newline>''
          @ ''Most relevant content from source: '' @ content source @ ''\<newline>===\<newline>''
          @ ''Full source content limited to '' @ str_int n) @ ?piece @ ''\<newline>\<newline>''"
        by (simp add: format_source_raw [OF assms] raw long)
      moreover have "?piece \<noteq> []" by simp
      moreover have "\<not> py_isspace (last ?piece)" by (simp add: py_isspace_def)
      ultimately show "sublist ?piece (deduplicate_and_format_sources search_response n True)"
        using piece_in_output [OF src] by blast
    }
    {
      assume fits: "\<not> nat (n * 4) < length raw \<and> raw \<noteq> [] \<and> \<not> py_isspace (last raw)"
      let ?piece = "'' tokens: '' @ raw"
      have "format_source n True source =
         (''Source '' @ title source @ '':\<newline>===\<newline>''
          @ ''URL: '' @ url source @ ''\<newline>===\<newline>''
          @ ''Most relevant content from source: '' @ content source @ ''\<newline>===\<newline>''
          @ ''Full source content limited to '' @ str_int n) @ ?piece @ ''\<newline>\<newline>''"
        using fits by (simp add: format_source_raw [OF assms] raw)
      moreover have "?piece \<noteq> []" by simp
      moreover have "\<not> py_isspace (last ?piece)" using fits by simp
      ultimately show "sublist ?piece (deduplicate_and_format_sources search_response n True)"
        using piece_in_output [OF src] by blast
    }
  qed
  from document pieces show ?thesis ..
qed


theorem truncation_law_witness:
  "(0 :: int) \<le> 2
   \<and> sublist '' tokens: abcdefgh... [truncated]''
       (deduplicate_and_format_sources
          [\<lparr>query = ''q'', follow_up_questions = None, answer = None, images = [],
            results = [\<lparr>title = ''T'', url = ''https://e.org/a'', content = ''snippet'',
                        score = 1, raw_content = Text ''abcdefghij''\<rparr>],
            error = None\<rparr>] 2 True)"
proof -
  let ?src = "\<lparr>title = ''T'', url = ''https://e.org/a'', content = ''snippet'',
               score = 1, raw_content = Text ''abcdefghij''\<rparr>"
  let ?resp = "[\<lparr>query = ''q'', follow_up_questions = None, answer = None, images = [],
                 results = [?src], error = None\<rparr>]"
  have h: "(0 :: int) \<le> 2" by simp
  have kept: "?src \<in> set (dict_values (unique_sources (collect_sources ?resp)))"
    by (simp add: dict_values_def unique_sources_def collect_sources_def)
  from truncation_law [OF h, of ?resp]
  have "\<forall>source \<in> set (dict_values (unique_sources (collect_sources ?resp))).
          \<forall>raw. raw_content source = Text raw \<longrightarrow>
            (nat (2 * 4) < length raw \<longrightarrow>
               sublist ('' tokens: '' @ take (nat (2 * 4)) raw @ ''... [truncated]'')
                 (deduplicate_and_format_sources ?resp 2 True))
            \<and> (\<not> nat (2 * 4) < length raw \<and> raw \<noteq> [] \<and> \<not> py_isspace (last raw) \<longrightarrow>
               sublist ('' tokens: '' @ raw)
                 (deduplicate_and_format_sources ?resp 2 True))"
    by (rule conjunct2)
  from bspec [OF this kept]
  have "sublist ('' tokens: '' @ take (nat (2 * 4)) ''abcdefghij'' @ ''... [truncated]'')
                 (deduplicate_and_format_sources ?resp 2 True)"
    by simp
  then have "sublist '' tokens: abcdefgh... [truncated]''
                 (deduplicate_and_format_sources ?resp 2 True)"
    by simp
  with h show ?thesis by blast
qed


text \<open>
  C3 as the specification states it fails in two ways. The returned text is stripped, so the
  whitespace that ends the raw content of the last source is lost: the raw content
  \<open>abc\<close> followed by a blank, within the budget, is returned as \<open>abc\<close>, and the raw content
  with its blank does not occur in the output. And with a negative budget every length
  exceeds the limit, so a source whose raw content is \<open>None\<close> gets the truncation marker.
\<close>

theorem truncation_law_counterexample:
  "deduplicate_and_format_sources
     [\<lparr>query = ''q'', follow_up_questions = None, answer = None, images = [],
       results = [\<lparr>title = ''T'', url = ''https://e.org/a'', content = ''snippet'', score = 1,
                   raw_content = Text ''abc ''\<rparr>],
       error = None\<rparr>] 5 True
     = ''Sources:\<newline>\<newline>Source T:\<newline>===\<newline>URL: https://e.org/a\<newline>===\<newline>Most relevant content from source: snippet\<newline>===\<newline>Full source content limited to 5 tokens: abc''
   \<and> \<not> sublist ''abc ''
       (deduplicate_and_format_sources
         [\<lparr>query = ''q'', follow_up_questions = None, answer = None, images = [],
           results = [\<lparr>title = ''T'', url = ''https://e.org/a'', content = ''snippet'', score = 1,
                       raw_content = Text ''abc ''\<rparr>],
           error = None\<rparr>] 5 True)
   \<and> deduplicate_and_format_sources
     [\<lparr>query = ''q'', follow_up_questions = None, answer = None, images = [],
       results = [\<lparr>title = ''T'', url = ''https://e.org/a'', content = ''snippet'', score = 1,
                   raw_content = Null\<rparr>],
       error = None\<rparr>] (- 1) True
     = ''Sources:\<newline>\<newline>Source T:\<newline>===\<newline>URL: https://e.org/a\<newline>===\<newline>Most relevant content from source: snippet\<newline>===\<newline>Full source content limited to -1 tokens: ... [truncated]''"
proof -
  have a: "deduplicate_and_format_sources
     [\<lparr>query = ''q'', follow_up_questions = None, answer = None, images = [],
       results = [\<lparr>title = ''T'', url = ''https://e.org/a'', content = ''snippet'', score = 1,
                   raw_content = Text ''abc ''\<rparr>],
       error = None\<rparr>] 5 True
     = ''Sources:\<newline>\<newline>Source T:\<newline>===\<newline>URL: https://e.org/a\<newline>===\<newline>Most relevant content from source: snippet\<newline>===\<newline>Full source content limited to 5 tokens: abc''"
    by (simp add: deduplicate_and_format_sources_def formatted_text_def dict_values_def
        unique_sources_def collect_sources_def format_source_def py_strip_def py_isspace_def
        limit_raw_def raw_text_def str_int_def str_nat.simps digit_char_def)
  have b: "\<not> sublist ''abc '' ''Sources:\<newline>\<newline>Source T:\<newline>===\<newline>URL: https://e.org/a\<newline>===\<newline>Most relevant content from source: snippet\<newline>===\<newline>Full source content limited to 5 tokens: abc''"
    by (simp add: sublist_Cons_right)
  have c: "deduplicate_and_format_sources
     [\<lparr>query = ''q'', follow_up_questions = None, answer = None, images = [],
       results = [\<lparr>title = ''T'', url = ''https://e.org/a'', content = ''snippet'', score = 1,
                   raw_content = Null\<rparr>],
       error = None\<rparr>] (- 1) True
     = ''Sources:\<newline>\<newline>Source T:\<newline>===\<newline>URL: https://e.org/a\<newline>===\<newline>Most relevant content from source: snippet\<newline>===\<newline>Full source content limited to -1 tokens: ... [truncated]''"
    by (simp add: deduplicate_and_format_sources_def formatted_text_def dict_values_def
        unique_sources_def collect_sources_def format_source_def py_strip_def py_isspace_def
        limit_raw_def raw_text_def str_int_def str_nat.simps digit_char_def py_slice_to_def
        truncation_marker_def)
  from a b c show ?thesis by (simp only: simp_thms)
qed

section \<open>Properties of perplexity_search\<close>

lemma perplexity_loop_returns:
  assumes "perplexity_loop api i qs (acc, tr) = (Inr docs, tr')"
  shows "\<exists>new. docs = acc @ new \<and> length new = length qs
           \<and> (\<forall>j < length qs. \<exists>data rs.
                  api (i + j) (qs ! j) = Inr data \<and> perplexity_results data = Inr rs
                  \<and> new ! j = \<lparr>query = qs ! j, follow_up_questions = None, answer = None,
                               images = [], results = rs, error = None\<rparr>)"
  using assms
proof (induction qs arbitrary: i acc tr)
  case Nil
  then show ?case by simp
next
  case (Cons q qs)
  from Cons.prems obtain data rs where
    d: "api i q = Inr data" and r: "perplexity_results data = Inr rs"
    and rest: "perplexity_loop api (Suc i) qs
                 (acc @ [\<lparr>query = q, follow_up_questions = None, answer = None,
                          images = [], results = rs, error = None\<rparr>], tr @ [Request q])
               = (Inr docs, tr')"
    by (auto split: sum.splits)
  let ?resp = "\<lparr>query = q, follow_up_questions = None, answer = None,
                 images = [], results = rs, error = None\<rparr>"
  from Cons.IH [OF rest] obtain new where
    n: "docs = (acc @ [?resp]) @ new" "length new = length qs"
    and each: "\<forall>j < length qs. \<exists>data rs.
                  api (Suc i + j) (qs ! j) = Inr data \<and> perplexity_results data = Inr rs
                  \<and> new ! j = \<lparr>query = qs ! j, follow_up_questions = None, answer = None,
                               images = [], results = rs, error = None\<rparr>"
    by blast
  have "\<forall>j < length (q # qs). \<exists>data rs.
                  api (i + j) ((q # qs) ! j) = Inr data \<and> perplexity_results data = Inr rs
                  \<and> (?resp # new) ! j = \<lparr>query = (q # qs) ! j, follow_up_questions = None,
                        answer = None, images = [], results = rs, error = None\<rparr>"
  proof (intro allI impI)
    fix j assume j: "j < length (q # qs)"
    show "\<exists>data rs.
                  api (i + j) ((q # qs) ! j) = Inr data \<and> perplexity_results data = Inr rs
                  \<and> (?resp # new) ! j = \<lparr>query = (q # qs) ! j, follow_up_questions = None,
                        answer = None, images = [], results = rs, error = None\<rparr>"
    proof (cases j)
      case 0
      with d r show ?thesis by simp
    next
      case (Suc k)
      with j have "k < length qs" by simp
      with each Suc show ?thesis by simp
    qed
  qed
  with n show ?case by (intro exI [of _ "?resp # new"]) simp
qed

lemma perplexity_results_shape:
  assumes "perplexity_results data = Inr rs"
  shows "\<exists>c rest.
           (case pplx_citations data of None \<Rightarrow> [''https://perplexity.ai''] | Some cs \<Rightarrow> cs)
             = c # rest
           \<and> rs = \<lparr>title = ''Perplexity Search, Source 1'', url = c,
                   content = pplx_content data, score = 1,
                   raw_content = Text (pplx_content data)\<rparr>
                 # map secondary_citation (zip [2 ..< 2 + length rest] rest)"
proof (cases "case pplx_citations data of None \<Rightarrow> [''https://perplexity.ai''] | Some cs \<Rightarrow> cs")
  case Nil
  with assms show ?thesis
    by (simp only: perplexity_results_def Let_def list.case sum.distinct)
next
  case (Cons c rest)
  with assms have "rs = \<lparr>title = ''Perplexity Search, Source 1'', url = c,
                   content = pplx_content data, score = 1,
                   raw_content = Text (pplx_content data)\<rparr>
                 # map secondary_citation (zip [2 ..< 2 + length rest] rest)"
    by (simp only: perplexity_results_def Let_def list.case sum.inject)
  with Cons show ?thesis by blast
qed


lemma nth_map_zip_upt:
  assumes "k < length xs"
  shows "map f (zip [a ..< a + length xs] xs) ! k = f (a + k, xs ! k)"
  using assms by simp

lemma perplexity_search_success:
  assumes run: "perplexity_search api search_queries = (Inr docs, tr)"
    and i: "i < length search_queries"
  shows "\<exists>data c rest.
           api i (search_queries ! i) = Inr data
           \<and> (case pplx_citations data of None \<Rightarrow> [''https://perplexity.ai''] | Some cs \<Rightarrow> cs)
               = c # rest
           \<and> docs ! i = \<lparr>query = search_queries ! i, follow_up_questions = None, answer = None,
                 images = [],
                 results = \<lparr>title = ''Perplexity Search, Source 1'', url = c,
                              content = pplx_content data, score = 1,
                              raw_content = Text (pplx_content data)\<rparr>
                           # map secondary_citation (zip [2 ..< 2 + length rest] rest),
                 error = None\<rparr>"
proof -
  from run have "perplexity_loop api 0 search_queries ([], []) = (Inr docs, tr)"
    by (simp only: perplexity_search_def)
  from perplexity_loop_returns [OF this] i
  obtain data rs where "api i (search_queries ! i) = Inr data"
    and rs: "perplexity_results data = Inr rs"
    and "docs ! i = \<lparr>query = search_queries ! i, follow_up_questions = None, answer = None,
                      images = [], results = rs, error = None\<rparr>"
    by auto
  moreover from perplexity_results_shape [OF rs] obtain c rest where
    "(case pplx_citations data of None \<Rightarrow> [''https://perplexity.ai''] | Some cs \<Rightarrow> cs) = c # rest"
    "rs = \<lparr>title = ''Perplexity Search, Source 1'', url = c,
                   content = pplx_content data, score = 1,
                   raw_content = Text (pplx_content data)\<rparr>
                 # map secondary_citation (zip [2 ..< 2 + length rest] rest)"
    by blast
  ultimately show ?thesis by blast
qed

text \<open>
  C8. When \<open>perplexity_search\<close> returns, the response of every query has exactly one result
  per citation of the provider's answer (the default citation when the answer has no
  citation list). The first result carries the whole answer text as \<open>content\<close> and as
  \<open>raw_content\<close> and the score 1.0; every later result is the placeholder: the content
  "See primary source for full content", \<open>raw_content\<close> \<open>None\<close>, the score 0.5.
\<close>

theorem perplexity_citation_mapping:
  assumes "perplexity_search api search_queries = (Inr docs, tr)"
    and "i < length search_queries"
  shows "\<exists>data c rest.
           api i (search_queries ! i) = Inr data
           \<and> (case pplx_citations data of None \<Rightarrow> [''https://perplexity.ai''] | Some cs \<Rightarrow> cs)
               = c # rest
           \<and> query (docs ! i) = search_queries ! i
           \<and> error (docs ! i) = None
           \<and> length (results (docs ! i)) = Suc (length rest)
           \<and> results (docs ! i) ! 0
               = \<lparr>title = ''Perplexity Search, Source 1'', url = c,
                  content = pplx_content data, score = 1,
                  raw_content = Text (pplx_content data)\<rparr>
           \<and> (\<forall>k < length rest.
                 results (docs ! i) ! Suc k
                   = \<lparr>title = ''Perplexity Search, Source '' @ str_nat (k + 2), url = rest ! k,
                      content = ''See primary source for full content'', score = 1 / 2,
                      raw_content = Null\<rparr>)"
proof -
  from perplexity_search_success [OF assms] obtain data c rest where
    a: "api i (search_queries ! i) = Inr data"
    and cs: "(case pplx_citations data of None \<Rightarrow> [''https://perplexity.ai''] | Some cs \<Rightarrow> cs)
               = c # rest"
    and d: "docs ! i = \<lparr>query = search_queries ! i, follow_up_questions = None, answer = None,
                 images = [],
                 results = \<lparr>title = ''Perplexity Search, Source 1'', url = c,
                              content = pplx_content data, score = 1,
                              raw_content = Text (pplx_content data)\<rparr>
                           # map secondary_citation (zip [2 ..< 2 + length rest] rest),
                 error = None\<rparr>"
    by blast
  have "\<forall>k < length rest.
          results (docs ! i) ! Suc k
            = \<lparr>title = ''Perplexity Search, Source '' @ str_nat (k + 2), url = rest ! k,
               content = ''See primary source for full content'', score = 1 / 2,
               raw_content = Null\<rparr>"
  proof (intro allI impI)
    fix k assume k: "k < length rest"
    have "results (docs ! i) ! Suc k
            = map secondary_citation (zip [2 ..< 2 + length rest] rest) ! k"
      by (simp only: d query_response.simps nth_Cons_Suc)
    also have "\<dots> = secondary_citation (2 + k, rest ! k)"
      by (rule nth_map_zip_upt [OF k])
    finally show "results (docs ! i) ! Suc k
            = \<lparr>title = ''Perplexity Search, Source '' @ str_nat (k + 2), url = rest ! k,
               content = ''See primary source for full content'', score = 1 / 2,
               raw_content = Null\<rparr>"
      by (simp add: secondary_citation_def add.commute)
  qed
  moreover have "length (results (docs ! i)) = Suc (length rest)"
    by (simp only: d query_response.simps length_Cons length_map length_zip length_upt
          add_diff_cancel_left' min.idem)
  moreover have "results (docs ! i) ! 0
               = \<lparr>title = ''Perplexity Search, Source 1'', url = c,
                  content = pplx_content data, score = 1,
                  raw_content = Text (pplx_content data)\<rparr>"
    by (simp add: d)
  moreover have "query (docs ! i) = search_queries ! i" "error (docs ! i) = None"
    by (simp_all add: d)
  ultimately show ?thesis using a cs by blast
qed

text \<open>
  C10. When \<open>perplexity_search\<close> returns, no response is empty: every response has at least
  the first, score-1.0 result, and when the provider's answer has no citation list that
  result's URL is the default \<open>https://perplexity.ai\<close> and it is the only result.
\<close>

theorem perplexity_never_empty:
  assumes "perplexity_search api search_queries = (Inr docs, tr)"
    and "i < length search_queries"
  shows "results (docs ! i) \<noteq> []
         \<and> (\<exists>data. api i (search_queries ! i) = Inr data
              \<and> (pplx_citations data = None \<longrightarrow>
                    results (docs ! i)
                      = [\<lparr>title = ''Perplexity Search, Source 1'', url = ''https://perplexity.ai'',
                          content = pplx_content data, score = 1,
                          raw_content = Text (pplx_content data)\<rparr>]))"
proof -
  from perplexity_search_success [OF assms] obtain data c rest where
    a: "api i (search_queries ! i) = Inr data"
    and cs: "(case pplx_citations data of None \<Rightarrow> [''https://perplexity.ai''] | Some cs \<Rightarrow> cs)
               = c # rest"
    and d: "docs ! i = \<lparr>query = search_queries ! i, follow_up_questions = None, answer = None,
                 images = [],
                 results = \<lparr>title = ''Perplexity Search, Source 1'', url = c,
                              content = pplx_content data, score = 1,
                              raw_content = Text (pplx_content data)\<rparr>
                           # map secondary_citation (zip [2 ..< 2 + length rest] rest),
                 error = None\<rparr>"
    by blast
  have nonempty: "results (docs ! i) \<noteq> []"
    by (simp only: d query_response.simps list.distinct not_False_eq_True)
  have single: "pplx_citations data = None \<longrightarrow>
                    results (docs ! i)
                      = [\<lparr>title = ''Perplexity Search, Source 1'', url = ''https://perplexity.ai'',
                          content = pplx_content data, score = 1,
                          raw_content = Text (pplx_content data)\<rparr>]"
  proof (rule impI)
    assume absent: "pplx_citations data = None"
    from cs have "[''https://perplexity.ai''] = c # rest"
      by (simp only: absent option.case)
    then have "c = ''https://perplexity.ai''" and "rest = []"
      by simp_all
    then show "results (docs ! i)
                      = [\<lparr>title = ''Perplexity Search, Source 1'', url = ''https://perplexity.ai'',
                          content = pplx_content data, score = 1,
                          raw_content = Text (pplx_content data)\<rparr>]"
      by (simp only: d query_response.simps list.size add_0_right upt_conv_Nil order_refl
            zip_Nil list.map)
  qed
  have "\<exists>data. api i (search_queries ! i) = Inr data
              \<and> (pplx_citations data = None \<longrightarrow>
                    results (docs ! i)
                      = [\<lparr>title = ''Perplexity Search, Source 1'', url = ''https://perplexity.ai'',
                          content = pplx_content data, score = 1,
                          raw_content = Text (pplx_content data)\<rparr>])"
    using a single by (intro exI [of _ data] conjI)
  with nonempty show ?thesis ..
qed


theorem perplexity_citation_mapping_witness:
  "\<exists>docs tr.
     perplexity_search
        (\<lambda>i q. Inr \<lparr>pplx_content = ''answer'',
                     pplx_citations = Some [''https://a.org'', ''https://b.org'']\<rparr>)
        [''climate policy 2024''] = (Inr docs, tr)
     \<and> (0 :: nat) < length [''climate policy 2024'']
     \<and> score (results (docs ! 0) ! 0) = 1
     \<and> raw_content (results (docs ! 0) ! 0) = Text ''answer''
     \<and> score (results (docs ! 0) ! Suc 0) = 1 / 2
     \<and> raw_content (results (docs ! 0) ! Suc 0) = Null"
proof -
  let ?api = "\<lambda>(i :: nat) (q :: string).
      (Inr \<lparr>pplx_content = ''answer'',
             pplx_citations = Some [''https://a.org'', ''https://b.org'']\<rparr> :: exn + pplx_data)"
  obtain docs tr where run: "perplexity_search ?api [''climate policy 2024''] = (Inr docs, tr)"
    by (simp add: perplexity_search_def perplexity_results_def)
  have i: "(0 :: nat) < length [''climate policy 2024'']" by simp
  from perplexity_citation_mapping [OF run i] obtain data c rest where
    d: "?api 0 ([''climate policy 2024''] ! 0) = Inr data"
    and cs: "(case pplx_citations data of None \<Rightarrow> [''https://perplexity.ai''] | Some cs \<Rightarrow> cs)
               = c # rest"
    and first: "results (docs ! 0) ! 0
               = \<lparr>title = ''Perplexity Search, Source 1'', url = c,
                  content = pplx_content data, score = 1,
                  raw_content = Text (pplx_content data)\<rparr>"
    and others: "\<forall>k < length rest.
                 results (docs ! 0) ! Suc k
                   = \<lparr>title = ''Perplexity Search, Source '' @ str_nat (k + 2), url = rest ! k,
                      content = ''See primary source for full content'', score = 1 / 2,
                      raw_content = Null\<rparr>"
    by blast
  from d have data: "data = \<lparr>pplx_content = ''answer'',
             pplx_citations = Some [''https://a.org'', ''https://b.org'']\<rparr>"
    by simp
  with cs have "rest = [''https://b.org'']" by simp
  then have "0 < length rest" by simp
  with others have second: "results (docs ! 0) ! Suc 0
                   = \<lparr>title = ''Perplexity Search, Source '' @ str_nat (0 + 2), url = rest ! 0,
                      content = ''See primary source for full content'', score = 1 / 2,
                      raw_content = Null\<rparr>"
    by blast
  have "score (results (docs ! 0) ! 0) = 1" "raw_content (results (docs ! 0) ! 0) = Text ''answer''"
    by (simp_all only: first data search_result.simps pplx_data.simps)
  moreover have "score (results (docs ! 0) ! Suc 0) = 1 / 2"
    "raw_content (results (docs ! 0) ! Suc 0) = Null"
    by (simp_all only: second search_result.simps)
  ultimately show ?thesis using run i by (intro exI [of _ docs] exI [of _ tr] conjI)
qed

theorem perplexity_never_empty_witness:
  "\<exists>docs tr.
     perplexity_search (\<lambda>i q. Inr \<lparr>pplx_content = ''answer'', pplx_citations = None\<rparr>)
        [''climate policy 2024''] = (Inr docs, tr)
     \<and> (0 :: nat) < length [''climate policy 2024'']
     \<and> results (docs ! 0) \<noteq> []
     \<and> map url (results (docs ! 0)) = [''https://perplexity.ai'']"
proof -
  let ?api = "\<lambda>(i :: nat) (q :: string).
      (Inr \<lparr>pplx_content = ''answer'', pplx_citations = None\<rparr> :: exn + pplx_data)"
  obtain docs tr where run: "perplexity_search ?api [''climate policy 2024''] = (Inr docs, tr)"
    by (simp add: perplexity_search_def perplexity_results_def)
  have i: "(0 :: nat) < length [''climate policy 2024'']" by simp
  note t = perplexity_never_empty [OF run i]
  from t have ne: "results (docs ! 0) \<noteq> []"
    by (rule conjunct1)
  from t have "\<exists>data. ?api 0 ([''climate policy 2024''] ! 0) = Inr data
              \<and> (pplx_citations data = None \<longrightarrow>
                    results (docs ! 0)
                      = [\<lparr>title = ''Perplexity Search, Source 1'', url = ''https://perplexity.ai'',
                          content = pplx_content data, score = 1,
                          raw_content = Text (pplx_content data)\<rparr>])"
    by (rule conjunct2)
  then obtain data where
    d: "?api 0 ([''climate policy 2024''] ! 0) = Inr data"
    and single: "pplx_citations data = None \<longrightarrow>
                    results (docs ! 0)
                      = [\<lparr>title = ''Perplexity Search, Source 1'', url = ''https://perplexity.ai'',
                          content = pplx_content data, score = 1,
                          raw_content = Text (pplx_content data)\<rparr>]"
    by (elim exE conjE)
  from d have "pplx_citations data = None" by auto
  with single have "results (docs ! 0)
                      = [\<lparr>title = ''Perplexity Search, Source 1'', url = ''https://perplexity.ai'',
                          content = pplx_content data, score = 1,
                          raw_content = Text (pplx_content data)\<rparr>]"
    by (rule mp)
  then have "map url (results (docs ! 0)) = [''https://perplexity.ai'']"
    by simp
  with run i ne show ?thesis by (intro exI [of _ docs] exI [of _ tr] conjI)
qed

text \<open>
  C5 fails on \<open>perplexity_search\<close>: nothing there catches a failing request. When the
  request for the second of three queries raises, the adapter raises too: no list of
  responses is returned, the response of the first query is lost, and the third query is
  never sent.
\<close>

theorem perplexity_failure_aborts_batch:
  "perplexity_search
     (\<lambda>i q. if i = 1 then Inl (ProviderError ''500 Server Error'')
             else Inr \<lparr>pplx_content = ''answer'', pplx_citations = None\<rparr>)
     [''q1'', ''q2'', ''q3'']
   = (Inl (ProviderError ''500 Server Error''), [Request ''q1'', Request ''q2''])"
  by (simp add: perplexity_search_def perplexity_results_def)


section \<open>The sequential loops\<close>

lemma zip_upt_Cons:
  "zip [i ..< i + length (q # qs)] (q # qs) = (i, q) # zip [Suc i ..< Suc i + length qs] qs"
  by (simp add: upt_conv_Cons del: upt_Suc)

lemma exa_loop_eq:
  fixes api :: "nat \<Rightarrow> string \<Rightarrow> exn + exa_item list" and subpages :: "int option"
  defines "resp \<equiv> \<lambda>(j, q). case process_query api subpages j q of
                                Inr result \<Rightarrow> result
                              | Inl e \<Rightarrow> error_response q e"
    and "ev \<equiv> \<lambda>(j, q). (if 0 < j then [Sleep (1 / 4)] else []) @ [Request q]
                      @ (case process_query api subpages j q of
                           Inr result \<Rightarrow> []
                         | Inl e \<Rightarrow> if py_contains ''429'' (str_exn e) then [Sleep 1] else [])"
  shows "exa_loop api subpages i qs (acc, tr)
     = (acc @ map resp (zip [i ..< i + length qs] qs),
        tr @ concat (map ev (zip [i ..< i + length qs] qs)))"
proof (induction qs arbitrary: i acc tr)
  case Nil
  show ?case by simp
next
  case (Cons q qs)
  have step: "exa_loop api subpages i (q # qs) (acc, tr)
      = exa_loop api subpages (Suc i) qs (acc @ [resp (i, q)], tr @ ev (i, q))"
    by (cases "process_query api subpages i q") (simp_all add: resp_def ev_def Let_def)
  show ?case
    by (simp only: step Cons.IH zip_upt_Cons list.map concat.simps append_assoc append_Cons
          append_Nil)
qed


lemma arxiv_process_single_query_returns:
  "arxiv_process_single_query api full i q
     = Inr (case api i q of
              Inr docs \<Rightarrow>
                \<lparr>query = q, follow_up_questions = None, answer = None, images = [],
                 results = map (arxiv_result full (length docs)) (zip [0 ..< length docs] docs),
                 error = None\<rparr>
            | Inl e \<Rightarrow> error_response q e)"
  by (simp add: arxiv_process_single_query_def split: sum.splits)

lemma arxiv_loop_eq:
  fixes api :: "nat \<Rightarrow> string \<Rightarrow> exn + arxiv_doc list" and full :: bool
  defines "resp \<equiv> \<lambda>(j, q). case api j q of
              Inr docs \<Rightarrow>
                \<lparr>query = q, follow_up_questions = None, answer = None, images = [],
                 results = map (arxiv_result full (length docs)) (zip [0 ..< length docs] docs),
                 error = None\<rparr>
            | Inl e \<Rightarrow> error_response q e"
    and "ev \<equiv> \<lambda>(j :: nat, q). (if 0 < j then [Sleep 3] else []) @ [Request q]"
  shows "arxiv_loop api full i qs (acc, tr)
     = (acc @ map resp (zip [i ..< i + length qs] qs),
        tr @ concat (map ev (zip [i ..< i + length qs] qs)))"
proof (induction qs arbitrary: i acc tr)
  case Nil
  show ?case by simp
next
  case (Cons q qs)
  have step: "arxiv_loop api full i (q # qs) (acc, tr)
      = arxiv_loop api full (Suc i) qs (acc @ [resp (i, q)], tr @ ev (i, q))"
    by (simp add: arxiv_process_single_query_returns resp_def ev_def Let_def)
  show ?case
    by (simp only: step Cons.IH zip_upt_Cons list.map concat.simps append_assoc append_Cons
          append_Nil)
qed

lemma pubmed_process_single_query_returns:
  "pubmed_process_single_query api i q
     = Inr (case api i q of
              Inr docs \<Rightarrow>
                \<lparr>query = q, follow_up_questions = None, answer = None, images = [],
                 results = map (pubmed_result (length docs)) (zip [0 ..< length docs] docs),
                 error = None\<rparr>
            | Inl e \<Rightarrow> error_response q e)"
  by (simp add: pubmed_process_single_query_def split: sum.splits)

lemma pubmed_loop_step:
  "pubmed_loop api i (q # qs) st
     = pubmed_loop api (Suc i) qs
         \<lparr>search_docs = search_docs st @ [pubmed_response api i q],
          delay = (if results (pubmed_response api i q) \<noteq> []
                   then max (1 / 2) (delay st * (9 / 10)) else delay st),
          trace = (if 0 < i then trace st @ [Sleep (delay st)] else trace st) @ [Request q]\<rparr>"
  by (simp add: pubmed_process_single_query_returns pubmed_response_def Let_def)

lemma pubmed_loop_docs:
  "search_docs (pubmed_loop api i qs st)
     = search_docs st @ map (\<lambda>(j, q). pubmed_response api j q) (zip [i ..< i + length qs] qs)"
proof (induction qs arbitrary: i st)
  case Nil
  show ?case by simp
next
  case (Cons q qs)
  show ?case
    by (simp only: pubmed_loop_step Cons.IH zip_upt_Cons list.map pubmed_state.simps
          append_assoc append_Cons append_Nil prod.case)
qed

lemma pubmed_delay_never_grows:
  assumes "1 / 2 \<le> delay st"
  shows "1 / 2 \<le> delay (pubmed_loop api i qs st) \<and> delay (pubmed_loop api i qs st) \<le> delay st"
  using assms
proof (induction qs arbitrary: i st)
  case Nil
  then show ?case by simp
next
  case (Cons q qs)
  let ?st = "\<lparr>search_docs = search_docs st @ [pubmed_response api i q],
          delay = (if results (pubmed_response api i q) \<noteq> []
                   then max (1 / 2) (delay st * (9 / 10)) else delay st),
          trace = (if 0 < i then trace st @ [Sleep (delay st)] else trace st) @ [Request q]\<rparr>"
  from Cons.prems have d: "1 / 2 \<le> delay ?st" "delay ?st \<le> delay st" by auto
  from Cons.IH [OF d(1), of "Suc i"] d(2)
  show ?case unfolding pubmed_loop_step by linarith
qed


section \<open>Properties of the sequential adapters\<close>

lemma map_query_zip:
  assumes "\<And>j q. query (f j q) = q"
  shows "map query (map (\<lambda>(j, q). f j q) (zip [i ..< i + length qs] qs)) = qs"
proof (induction qs arbitrary: i)
  case Nil
  show ?case by simp
next
  case (Cons q qs)
  show ?case
    by (simp only: zip_upt_Cons list.map prod.case assms Cons.IH)
qed

lemma length_map_zip_upt:
  "length (map f (zip [i ..< i + length qs] qs)) = length qs"
  by simp

lemma query_error_response: "query (error_response q e) = q"
  by (simp add: error_response_def)

lemma query_format_exa_response: "query (format_exa_response subpages q items) = q"
  by (simp add: format_exa_response_def Let_def)

lemma exa_search_eq:
  assumes "\<not> (truthy include_domains \<and> truthy exclude_domains)"
  shows "exa_search api qs include_domains exclude_domains subpages
     = (Inr (map (\<lambda>(j, q). case api j q of
                              Inl e \<Rightarrow> error_response q e
                            | Inr items \<Rightarrow> format_exa_response subpages q items)
               (zip [0 ..< 0 + length qs] qs)),
        concat (map (\<lambda>(j, q). (if 0 < j then [Sleep (1 / 4)] else []) @ [Request q]
                      @ (case api j q of
                           Inl e \<Rightarrow> if py_contains ''429'' (str_exn e) then [Sleep 1] else []
                         | Inr items \<Rightarrow> []))
               (zip [0 ..< 0 + length qs] qs)))"
proof -
  have r: "(case process_query api subpages j q of
              Inr result \<Rightarrow> result | Inl e \<Rightarrow> error_response q e)
           = (case api j q of
                Inl e \<Rightarrow> error_response q e
              | Inr items \<Rightarrow> format_exa_response subpages q items)" for j q
    by (simp add: process_query_def split: sum.splits)
  have e: "(case process_query api subpages j q of
              Inr result \<Rightarrow> []
            | Inl e \<Rightarrow> if py_contains ''429'' (str_exn e) then [Sleep 1] else [])
           = (case api j q of
                Inl e \<Rightarrow> if py_contains ''429'' (str_exn e) then [Sleep 1] else []
              | Inr items \<Rightarrow> [])" for j q
    by (simp add: process_query_def split: sum.splits)
  from assms show ?thesis
    by (simp only: exa_search_def if_False exa_loop_eq r e prod.case Let_def append_Nil)
qed


lemma arxiv_search_async_eq:
  "arxiv_search_async api qs full
     = (map (\<lambda>(j, q). case api j q of
              Inr docs \<Rightarrow>
                \<lparr>query = q, follow_up_questions = None, answer = None, images = [],
                 results = map (arxiv_result full (length docs)) (zip [0 ..< length docs] docs),
                 error = None\<rparr>
            | Inl e \<Rightarrow> error_response q e)
          (zip [0 ..< 0 + length qs] qs),
        concat (map (\<lambda>(j, q). (if 0 < j then [Sleep 3] else []) @ [Request q])
                  (zip [0 ..< 0 + length qs] qs)))"
  by (simp only: arxiv_search_async_def arxiv_loop_eq append_Nil)

lemma pubmed_search_async_docs:
  "fst (pubmed_search_async api qs)
     = map (\<lambda>(j, q). pubmed_response api j q) (zip [0 ..< 0 + length qs] qs)"
  by (simp only: pubmed_search_async_def pubmed_run_def Let_def fst_conv pubmed_loop_docs
        pubmed_state.simps append_Nil)

lemma query_pubmed_response: "query (pubmed_response api j q) = q"
  by (simp add: pubmed_response_def error_response_def split: sum.splits)

text \<open>
  C2. Each sequential adapter answers a batch of N queries with N responses, the response at
  position i carrying the query at position i; a query whose request raises has its
  response too, with no results and the error message. For \<open>exa_search\<close> this is when the
  two domain filters are not both given (with both, the call raises before the loop).
\<close>

theorem positional_invariant:
  assumes "\<not> (truthy include_domains \<and> truthy exclude_domains)"
  shows
    "(\<exists>docs tr.
        exa_search exa_api qs include_domains exclude_domains subpages = (Inr docs, tr)
        \<and> length docs = length qs
        \<and> map query docs = qs
        \<and> (\<forall>i < length qs. \<forall>e. exa_api i (qs ! i) = Inl e \<longrightarrow>
              results (docs ! i) = [] \<and> error (docs ! i) = Some (str_exn e)))
     \<and> (length (fst (arxiv_search_async arxiv_api qs full)) = length qs
        \<and> map query (fst (arxiv_search_async arxiv_api qs full)) = qs
        \<and> (\<forall>i < length qs. \<forall>e. arxiv_api i (qs ! i) = Inl e \<longrightarrow>
              results (fst (arxiv_search_async arxiv_api qs full) ! i) = []
              \<and> error (fst (arxiv_search_async arxiv_api qs full) ! i) = Some (str_exn e)))
     \<and> (length (fst (pubmed_search_async pubmed_api qs)) = length qs
        \<and> map query (fst (pubmed_search_async pubmed_api qs)) = qs
        \<and> (\<forall>i < length qs. \<forall>e. pubmed_api i (qs ! i) = Inl e \<longrightarrow>
              results (fst (pubmed_search_async pubmed_api qs) ! i) = []
              \<and> error (fst (pubmed_search_async pubmed_api qs) ! i) = Some (str_exn e)))"
proof (intro conjI)
  let ?f = "\<lambda>j q. case exa_api j q of
                              Inl e \<Rightarrow> error_response q e
                            | Inr items \<Rightarrow> format_exa_response subpages q items"
  let ?docs = "map (\<lambda>(j, q). ?f j q) (zip [0 ..< 0 + length qs] qs)"
  have q: "query (?f j q) = q" for j q
    by (simp add: query_error_response query_format_exa_response split: sum.splits)
  have "length ?docs = length qs" by (rule length_map_zip_upt)
  moreover have "map query ?docs = qs" using q by (rule map_query_zip)
  moreover have "\<forall>i < length qs. \<forall>e. exa_api i (qs ! i) = Inl e \<longrightarrow>
              results (?docs ! i) = [] \<and> error (?docs ! i) = Some (str_exn e)"
  proof (intro allI impI)
    fix i e assume i: "i < length qs" and e: "exa_api i (qs ! i) = Inl e"
    have "?docs ! i = ?f (0 + i) (qs ! i)"
      using nth_map_zip_upt [OF i, of "\<lambda>(j, q). ?f j q" 0] by simp
    with e show "results (?docs ! i) = [] \<and> error (?docs ! i) = Some (str_exn e)"
      by (simp add: error_response_def)
  qed
  ultimately show "\<exists>docs tr.
        exa_search exa_api qs include_domains exclude_domains subpages = (Inr docs, tr)
        \<and> length docs = length qs
        \<and> map query docs = qs
        \<and> (\<forall>i < length qs. \<forall>e. exa_api i (qs ! i) = Inl e \<longrightarrow>
              results (docs ! i) = [] \<and> error (docs ! i) = Some (str_exn e))"
    using exa_search_eq [OF assms, of exa_api qs subpages] by blast
next
  show "length (fst (arxiv_search_async arxiv_api qs full)) = length qs"
    by (simp only: arxiv_search_async_eq fst_conv length_map_zip_upt)
next
  let ?f = "\<lambda>j q. case arxiv_api j q of
              Inr docs \<Rightarrow>
                \<lparr>query = q, follow_up_questions = None, answer = None, images = [],
                 results = map (arxiv_result full (length docs)) (zip [0 ..< length docs] docs),
                 error = None\<rparr>
            | Inl e \<Rightarrow> error_response q e"
  have "query (?f j q) = q" for j q
    by (simp add: query_error_response split: sum.splits)
  then have "map query (map (\<lambda>(j, q). ?f j q) (zip [0 ..< 0 + length qs] qs)) = qs"
    by (rule map_query_zip)
  then show "map query (fst (arxiv_search_async arxiv_api qs full)) = qs"
    by (simp only: arxiv_search_async_eq fst_conv)
next
  let ?f = "\<lambda>j q. case arxiv_api j q of
              Inr docs \<Rightarrow>
                \<lparr>query = q, follow_up_questions = None, answer = None, images = [],
                 results = map (arxiv_result full (length docs)) (zip [0 ..< length docs] docs),
                 error = None\<rparr>
            | Inl e \<Rightarrow> error_response q e"
  show "\<forall>i < length qs. \<forall>e. arxiv_api i (qs ! i) = Inl e \<longrightarrow>
              results (fst (arxiv_search_async arxiv_api qs full) ! i) = []
              \<and> error (fst (arxiv_search_async arxiv_api qs full) ! i) = Some (str_exn e)"
  proof (intro allI impI)
    fix i e assume i: "i < length qs" and e: "arxiv_api i (qs ! i) = Inl e"
    have "fst (arxiv_search_async arxiv_api qs full) ! i = ?f (0 + i) (qs ! i)"
      using nth_map_zip_upt [OF i, of "\<lambda>(j, q). ?f j q" 0]
      by (simp only: arxiv_search_async_eq fst_conv prod.case)
    with e show "results (fst (arxiv_search_async arxiv_api qs full) ! i) = []
              \<and> error (fst (arxiv_search_async arxiv_api qs full) ! i) = Some (str_exn e)"
      by (simp add: error_response_def)
  qed
next
  show "length (fst (pubmed_search_async pubmed_api qs)) = length qs"
    by (simp only: pubmed_search_async_docs length_map_zip_upt)
next
  have "map query (map (\<lambda>(j, q). pubmed_response pubmed_api j q)
                    (zip [0 ..< 0 + length qs] qs)) = qs"
    using query_pubmed_response by (rule map_query_zip)
  then show "map query (fst (pubmed_search_async pubmed_api qs)) = qs"
    by (simp only: pubmed_search_async_docs)
next
  show "\<forall>i < length qs. \<forall>e. pubmed_api i (qs ! i) = Inl e \<longrightarrow>
              results (fst (pubmed_search_async pubmed_api qs) ! i) = []
              \<and> error (fst (pubmed_search_async pubmed_api qs) ! i) = Some (str_exn e)"
  proof (intro allI impI)
    fix i e assume i: "i < length qs" and e: "pubmed_api i (qs ! i) = Inl e"
    have "fst (pubmed_search_async pubmed_api qs) ! i = pubmed_response pubmed_api (0 + i) (qs ! i)"
      using nth_map_zip_upt [OF i, of "\<lambda>(j, q). pubmed_response pubmed_api j q" 0]
      by (simp only: pubmed_search_async_docs prod.case)
    with e show "results (fst (pubmed_search_async pubmed_api qs) ! i) = []
              \<and> error (fst (pubmed_search_async pubmed_api qs) ! i) = Some (str_exn e)"
      by (simp add: pubmed_response_def error_response_def)
  qed
qed


theorem positional_invariant_witness:
  "\<not> (truthy (None :: string list option) \<and> truthy (Some [''example.org'']))
   \<and> map query (fst (arxiv_search_async (\<lambda>i q. Inl (ProviderError ''timeout''))
                       [''first'', ''second''] True))
       = [''first'', ''second'']
   \<and> map query (fst (pubmed_search_async (\<lambda>i q. Inl (ProviderError ''timeout''))
                       [''first'', ''second'']))
       = [''first'', ''second'']"
proof -
  have h: "\<not> (truthy (None :: string list option) \<and> truthy (Some [''example.org'']))"
    by (simp add: truthy_def)
  note t = positional_invariant [OF h, of "\<lambda>i q. Inl (ProviderError ''timeout'')"
      "[''first'', ''second'']" None "\<lambda>i q. Inl (ProviderError ''timeout'')" True
      "\<lambda>i q. Inl (ProviderError ''timeout'')"]
  from t have "map query (fst (arxiv_search_async (\<lambda>i q. Inl (ProviderError ''timeout''))
                       [''first'', ''second''] True))
       = [''first'', ''second'']"
    by (elim conjE)
  moreover from t have "map query (fst (pubmed_search_async (\<lambda>i q. Inl (ProviderError ''timeout''))
                       [''first'', ''second'']))
       = [''first'', ''second'']"
    by (elim conjE)
  ultimately show ?thesis using h by (intro conjI)
qed

lemma exa_search_batch:
  assumes "\<not> (truthy include_domains \<and> truthy exclude_domains)"
  shows
    "\<exists>docs tr.
       exa_search api qs include_domains exclude_domains subpages = (Inr docs, tr)
       \<and> length docs = length qs
       \<and> (\<forall>i < length qs.
             docs ! i
               = (case api i (qs ! i) of
                    Inl e \<Rightarrow>
                      \<lparr>query = qs ! i, follow_up_questions = None, answer = None, images = [],
                       results = [], error = Some (str_exn e)\<rparr>
                  | Inr items \<Rightarrow> format_exa_response subpages (qs ! i) items))
       \<and> tr = concat (map (\<lambda>(i, q).
                    (if 0 < i then [Sleep (1 / 4)] else []) @ [Request q]
                    @ (case api i q of
                         Inl e \<Rightarrow> if py_contains ''429'' (str_exn e) then [Sleep 1] else []
                       | Inr items \<Rightarrow> []))
                 (zip [0 ..< length qs] qs))"
proof -
  let ?f = "\<lambda>j q. case api j q of
                              Inl e \<Rightarrow> error_response q e
                            | Inr items \<Rightarrow> format_exa_response subpages q items"
  let ?docs = "map (\<lambda>(j, q). ?f j q) (zip [0 ..< 0 + length qs] qs)"
  let ?tr = "concat (map (\<lambda>(i, q).
                    (if 0 < i then [Sleep (1 / 4)] else []) @ [Request q]
                    @ (case api i q of
                         Inl e \<Rightarrow> if py_contains ''429'' (str_exn e) then [Sleep 1] else []
                       | Inr items \<Rightarrow> []))
                 (zip [0 ..< 0 + length qs] qs))"
  have run: "exa_search api qs include_domains exclude_domains subpages = (Inr ?docs, ?tr)"
    by (rule exa_search_eq [OF assms])
  have len: "length ?docs = length qs" by (rule length_map_zip_upt)
  have each: "\<forall>i < length qs.
             ?docs ! i
               = (case api i (qs ! i) of
                    Inl e \<Rightarrow>
                      \<lparr>query = qs ! i, follow_up_questions = None, answer = None, images = [],
                       results = [], error = Some (str_exn e)\<rparr>
                  | Inr items \<Rightarrow> format_exa_response subpages (qs ! i) items)"
  proof (intro allI impI)
    fix i assume i: "i < length qs"
    have "?docs ! i = ?f (0 + i) (qs ! i)"
      using nth_map_zip_upt [OF i, of "\<lambda>(j, q). ?f j q" 0] by simp
    then show "?docs ! i
               = (case api i (qs ! i) of
                    Inl e \<Rightarrow>
                      \<lparr>query = qs ! i, follow_up_questions = None, answer = None, images = [],
                       results = [], error = Some (str_exn e)\<rparr>
                  | Inr items \<Rightarrow> format_exa_response subpages (qs ! i) items)"
      by (simp add: error_response_def split: sum.splits)
  qed
  have tr: "?tr = concat (map (\<lambda>(i, q).
                    (if 0 < i then [Sleep (1 / 4)] else []) @ [Request q]
                    @ (case api i q of
                         Inl e \<Rightarrow> if py_contains ''429'' (str_exn e) then [Sleep 1] else []
                       | Inr items \<Rightarrow> []))
                 (zip [0 ..< length qs] qs))"
    by (simp only: add_0)
  from run len each tr show ?thesis by (intro exI [of _ ?docs] exI [of _ ?tr] conjI)
qed

lemma perplexity_loop_first_failure:
  assumes "k < length qs"
    and "api (i + k) (qs ! k) = Inl e"
    and "\<forall>j < k. \<exists>data rs. api (i + j) (qs ! j) = Inr data \<and> perplexity_results data = Inr rs"
  shows "perplexity_loop api i qs (acc, tr) = (Inl e, tr @ map Request (take (Suc k) qs))"
  using assms
proof (induction qs arbitrary: i k acc tr)
  case Nil
  then show ?case by simp
next
  case (Cons q qs)
  show ?case
  proof (cases k)
    case 0
    with Cons.prems(2) show ?thesis by simp
  next
    case (Suc k')
    from Cons.prems(3) Suc obtain data rs where
      d: "api i q = Inr data" and r: "perplexity_results data = Inr rs"
      by fastforce
    from Cons.prems(1) Suc have k': "k' < length qs" by simp
    from Cons.prems(2) Suc have e: "api (Suc i + k') (qs ! k') = Inl e" by simp
    have earlier: "\<forall>j < k'. \<exists>data rs.
        api (Suc i + j) (qs ! j) = Inr data \<and> perplexity_results data = Inr rs"
    proof (intro allI impI)
      fix j assume "j < k'"
      then have "Suc j < k" using Suc by simp
      with Cons.prems(3) have "\<exists>data rs. api (i + Suc j) ((q # qs) ! Suc j) = Inr data
          \<and> perplexity_results data = Inr rs"
        by blast
      then show "\<exists>data rs. api (Suc i + j) (qs ! j) = Inr data \<and> perplexity_results data = Inr rs"
        by simp
    qed
    from Cons.IH [OF k' e earlier] d r Suc show ?thesis by simp
  qed
qed

lemma perplexity_loop_trace:
  "\<exists>m \<le> length qs. snd (perplexity_loop api i qs (acc, tr)) = tr @ map Request (take m qs)"
proof (induction qs arbitrary: i acc tr)
  case Nil
  show ?case by simp
next
  case (Cons q qs)
  show ?case
  proof (cases "api i q")
    case (Inl e)
    then have "snd (perplexity_loop api i (q # qs) (acc, tr)) = tr @ map Request (take 1 (q # qs))"
      by simp
    then show ?thesis by (intro exI [of _ 1]) simp
  next
    case (Inr data)
    show ?thesis
    proof (cases "perplexity_results data")
      case (Inl e)
      with Inr have "snd (perplexity_loop api i (q # qs) (acc, tr))
          = tr @ map Request (take 1 (q # qs))"
        by simp
      then show ?thesis by (intro exI [of _ 1]) simp
    next
      case rs: (Inr rs)
      let ?acc = "acc @ [\<lparr>query = q, follow_up_questions = None, answer = None,
                                  images = [], results = rs, error = None\<rparr>]"
      from Cons.IH [of "Suc i" ?acc "tr @ [Request q]"] obtain m where
        m: "m \<le> length qs"
        and t: "snd (perplexity_loop api (Suc i) qs (?acc, tr @ [Request q]))
                  = (tr @ [Request q]) @ map Request (take m qs)"
        by blast
      from Inr rs t have "snd (perplexity_loop api i (q # qs) (acc, tr))
          = tr @ map Request (take (Suc m) (q # qs))"
        by simp
      with m show ?thesis by (intro exI [of _ "Suc m"]) simp
    qed
  qed
qed

lemma perplexity_search_raise:
  assumes "k < length qs" and "api k (qs ! k) = Inl e"
  shows "\<exists>e'. fst (perplexity_search api qs) = Inl e'"
proof (cases "fst (perplexity_search api qs)")
  case (Inl e')
  then show ?thesis by blast
next
  case (Inr docs)
  then have "perplexity_loop api 0 qs ([], []) = (Inr docs, snd (perplexity_search api qs))"
    by (simp add: perplexity_search_def prod_eq_iff)
  from perplexity_loop_returns [OF this] assms(1) obtain data where "api (0 + k) (qs ! k) = Inr data"
    by blast
  with assms(2) show ?thesis by simp
qed

text \<open>
  C5 (as the code has it). In \<open>exa_search\<close>, with the two domain filters not both given, every
  batch of N queries returns N responses. The response at position i depends on the request
  for the query at position i alone: when that request raises, the response has the query,
  no results and the error message, and the loop goes on to the next query; when it
  returns, the response is the formatted result. The adapter sleeps 0.25s before every
  query but the first, and one more second right after a request whose error message
  contains "429", before it turns to the next query.
  \<open>perplexity_search\<close> has no such handling. Whenever a request of the batch raises, it
  returns no list of responses; the first request that raises ends the batch with its
  exception, the queries after it are never sent, and the responses before it are lost. It
  never pauses: all it does to the outside is send requests, for an initial part of the
  batch.
\<close>

theorem exa_failure_isolated:
  assumes "\<not> (truthy include_domains \<and> truthy exclude_domains)"
  shows
    "(\<exists>docs tr.
       exa_search api qs include_domains exclude_domains subpages = (Inr docs, tr)
       \<and> length docs = length qs
       \<and> (\<forall>i < length qs.
             docs ! i
               = (case api i (qs ! i) of
                    Inl e \<Rightarrow>
                      \<lparr>query = qs ! i, follow_up_questions = None, answer = None, images = [],
                       results = [], error = Some (str_exn e)\<rparr>
                  | Inr items \<Rightarrow> format_exa_response subpages (qs ! i) items))
       \<and> tr = concat (map (\<lambda>(i, q).
                    (if 0 < i then [Sleep (1 / 4)] else []) @ [Request q]
                    @ (case api i q of
                         Inl e \<Rightarrow> if py_contains ''429'' (str_exn e) then [Sleep 1] else []
                       | Inr items \<Rightarrow> []))
                 (zip [0 ..< length qs] qs)))
     \<and> (\<forall>k e. k < length ps \<and> perplexity_api k (ps ! k) = Inl e \<longrightarrow>
           (\<exists>e'. fst (perplexity_search perplexity_api ps) = Inl e'))
     \<and> (\<forall>k e. k < length ps \<and> perplexity_api k (ps ! k) = Inl e
             \<and> (\<forall>j < k. \<exists>data rs. perplexity_api j (ps ! j) = Inr data
                                  \<and> perplexity_results data = Inr rs) \<longrightarrow>
           perplexity_search perplexity_api ps = (Inl e, map Request (take (Suc k) ps)))
     \<and> (\<exists>m \<le> length ps. snd (perplexity_search perplexity_api ps) = map Request (take m ps))"
proof (intro conjI allI impI)
  show "(\<exists>docs tr.
       exa_search api qs include_domains exclude_domains subpages = (Inr docs, tr)
       \<and> length docs = length qs
       \<and> (\<forall>i < length qs.
             docs ! i
               = (case api i (qs ! i) of
                    Inl e \<Rightarrow>
                      \<lparr>query = qs ! i, follow_up_questions = None, answer = None, images = [],
                       results = [], error = Some (str_exn e)\<rparr>
                  | Inr items \<Rightarrow> format_exa_response subpages (qs ! i) items))
       \<and> tr = concat (map (\<lambda>(i, q).
                    (if 0 < i then [Sleep (1 / 4)] else []) @ [Request q]
                    @ (case api i q of
                         Inl e \<Rightarrow> if py_contains ''429'' (str_exn e) then [Sleep 1] else []
                       | Inr items \<Rightarrow> []))
                 (zip [0 ..< length qs] qs)))"
    by (rule exa_search_batch [OF assms])
next
  fix k e
  assume "k < length ps \<and> perplexity_api k (ps ! k) = Inl e"
  then show "\<exists>e'. fst (perplexity_search perplexity_api ps) = Inl e'"
    using perplexity_search_raise by blast
next
  fix k e
  assume a: "k < length ps \<and> perplexity_api k (ps ! k) = Inl e
             \<and> (\<forall>j < k. \<exists>data rs. perplexity_api j (ps ! j) = Inr data
                                  \<and> perplexity_results data = Inr rs)"
  then have "k < length ps" and "perplexity_api (0 + k) (ps ! k) = Inl e"
    and "\<forall>j < k. \<exists>data rs. perplexity_api (0 + j) (ps ! j) = Inr data
                                  \<and> perplexity_results data = Inr rs"
    by simp_all
  from perplexity_loop_first_failure [OF this]
  show "perplexity_search perplexity_api ps = (Inl e, map Request (take (Suc k) ps))"
    by (simp add: perplexity_search_def)
next
  from perplexity_loop_trace [of ps perplexity_api 0 "[]" "[]"]
  show "\<exists>m \<le> length ps. snd (perplexity_search perplexity_api ps) = map Request (take m ps)"
    by (simp add: perplexity_search_def)
qed


theorem exa_failure_isolated_witness:
  "\<not> (truthy (None :: string list option) \<and> truthy (None :: string list option))
   \<and> (\<exists>docs tr.
     exa_search
       (\<lambda>i q. if i = 0 then Inl (ProviderError ''429 Too Many Requests'') else Inr [])
       [''first'', ''second''] None None None = (Inr docs, tr)
     \<and> length docs = 2
     \<and> results (docs ! 0) = []
     \<and> error (docs ! 0) = Some ''429 Too Many Requests''
     \<and> query (docs ! 1) = ''second''
     \<and> error (docs ! 1) = None
     \<and> tr = [Request ''first'', Sleep 1, Sleep (1 / 4), Request ''second''])
   \<and> perplexity_search
       (\<lambda>i q. if i = 0 then Inl (ProviderError ''429 Too Many Requests'')
               else Inr \<lparr>pplx_content = ''answer'', pplx_citations = None\<rparr>)
       [''first'', ''second'']
     = (Inl (ProviderError ''429 Too Many Requests''), [Request ''first''])"
proof -
  let ?api = "\<lambda>(i :: nat) (q :: string).
      if i = 0 then Inl (ProviderError ''429 Too Many Requests'')
      else (Inr [] :: exn + exa_item list)"
  let ?papi = "\<lambda>(i :: nat) (q :: string).
      if i = 0 then Inl (ProviderError ''429 Too Many Requests'')
      else (Inr \<lparr>pplx_content = ''answer'', pplx_citations = None\<rparr> :: exn + pplx_data)"
  have h: "\<not> (truthy (None :: string list option) \<and> truthy (None :: string list option))"
    by (simp add: truthy_def)
  note t = exa_failure_isolated [OF h, where api = ?api and qs = "[''first'', ''second'']"
      and subpages = None and perplexity_api = ?papi and ps = "[''first'', ''second'']"]
  from t have "\<exists>docs tr.
       exa_search ?api [''first'', ''second''] None None None = (Inr docs, tr)
       \<and> length docs = length [''first'', ''second'']
       \<and> (\<forall>i < length [''first'', ''second''].
             docs ! i
               = (case ?api i ([''first'', ''second''] ! i) of
                    Inl e \<Rightarrow>
                      \<lparr>query = [''first'', ''second''] ! i, follow_up_questions = None,
                       answer = None, images = [], results = [], error = Some (str_exn e)\<rparr>
                  | Inr items \<Rightarrow> format_exa_response None ([''first'', ''second''] ! i) items))
       \<and> tr = concat (map (\<lambda>(i, q).
                    (if 0 < i then [Sleep (1 / 4)] else []) @ [Request q]
                    @ (case ?api i q of
                         Inl e \<Rightarrow> if py_contains ''429'' (str_exn e) then [Sleep 1] else []
                       | Inr items \<Rightarrow> []))
                 (zip [0 ..< length [''first'', ''second'']] [''first'', ''second'']))"
    by (rule conjunct1)
  then obtain docs tr where
    run: "exa_search ?api [''first'', ''second''] None None None = (Inr docs, tr)"
    and len: "length docs = length [''first'', ''second'']"
    and each: "\<forall>i < length [''first'', ''second''].
             docs ! i
               = (case ?api i ([''first'', ''second''] ! i) of
                    Inl e \<Rightarrow>
                      \<lparr>query = [''first'', ''second''] ! i, follow_up_questions = None,
                       answer = None, images = [], results = [], error = Some (str_exn e)\<rparr>
                  | Inr items \<Rightarrow> format_exa_response None ([''first'', ''second''] ! i) items)"
    and tr: "tr = concat (map (\<lambda>(i, q).
                    (if 0 < i then [Sleep (1 / 4)] else []) @ [Request q]
                    @ (case ?api i q of
                         Inl e \<Rightarrow> if py_contains ''429'' (str_exn e) then [Sleep 1] else []
                       | Inr items \<Rightarrow> []))
                 (zip [0 ..< length [''first'', ''second'']] [''first'', ''second'']))"
    by (elim exE conjE)
  from each have d0: "docs ! 0 = \<lparr>query = ''first'', follow_up_questions = None,
                       answer = None, images = [], results = [],
                       error = Some ''429 Too Many Requests''\<rparr>"
    by (simp add: str_exn_def)
  from each have d1: "docs ! 1 = format_exa_response None ''second'' []"
    by simp
  have "tr = [Request ''first'', Sleep 1, Sleep (1 / 4), Request ''second'']"
    unfolding tr by (simp add: str_exn_def upt_conv_Cons)
  moreover have "length docs = 2" using len by simp
  moreover have "results (docs ! 0) = []" "error (docs ! 0) = Some ''429 Too Many Requests''"
    by (simp_all add: d0)
  moreover have "query (docs ! 1) = ''second''" "error (docs ! 1) = None"
    using d1 by (simp_all add: format_exa_response_def)
  ultimately have exa: "\<exists>docs tr.
     exa_search ?api [''first'', ''second''] None None None = (Inr docs, tr)
     \<and> length docs = 2
     \<and> results (docs ! 0) = []
     \<and> error (docs ! 0) = Some ''429 Too Many Requests''
     \<and> query (docs ! 1) = ''second''
     \<and> error (docs ! 1) = None
     \<and> tr = [Request ''first'', Sleep 1, Sleep (1 / 4), Request ''second'']"
    using run by (intro exI [of _ docs] exI [of _ tr] conjI)
  from t have "\<forall>k e. k < length [''first'', ''second''] \<and> ?papi k ([''first'', ''second''] ! k) = Inl e
             \<and> (\<forall>j < k. \<exists>data rs. ?papi j ([''first'', ''second''] ! j) = Inr data
                                  \<and> perplexity_results data = Inr rs) \<longrightarrow>
           perplexity_search ?papi [''first'', ''second'']
             = (Inl e, map Request (take (Suc k) [''first'', ''second'']))"
    by (elim conjE)
  then have "(0 :: nat) < length [''first'', ''second'']
             \<and> ?papi 0 ([''first'', ''second''] ! 0) = Inl (ProviderError ''429 Too Many Requests'')
             \<and> (\<forall>j < (0 :: nat). \<exists>data rs. ?papi j ([''first'', ''second''] ! j) = Inr data
                                  \<and> perplexity_results data = Inr rs) \<longrightarrow>
           perplexity_search ?papi [''first'', ''second'']
             = (Inl (ProviderError ''429 Too Many Requests''),
                map Request (take (Suc 0) [''first'', ''second'']))"
    by blast
  then have "perplexity_search ?papi [''first'', ''second'']
     = (Inl (ProviderError ''429 Too Many Requests''), [Request ''first''])"
    by simp
  with h exa show ?thesis by (intro conjI)
qed

text \<open>
  C9. When both domain filters are given (each a non-empty list), \<open>exa_search\<close> raises the
  \<open>ValueError\<close> at once: it returns no response, and it has made no request to the provider
  and no pause, whatever the queries and whatever the provider would answer.
\<close>

theorem exa_domain_filters_exclusive:
  assumes "include_domains = Some incl" and "incl \<noteq> []"
    and "exclude_domains = Some excl" and "excl \<noteq> []"
  shows "exa_search api qs include_domains exclude_domains subpages
           = (Inl (ValueError ''Cannot specify both include_domains and exclude_domains''), [])"
  using assms by (simp add: exa_search_def truthy_def)

theorem exa_domain_filters_exclusive_witness:
  "exa_search (\<lambda>i q. Inr []) [''first'', ''second''] (Some [''a.org'']) (Some [''b.org'']) None
     = (Inl (ValueError ''Cannot specify both include_domains and exclude_domains''), [])
   \<and> [''a.org''] \<noteq> [] \<and> [''b.org''] \<noteq> []"
proof -
  have a: "[''a.org''] \<noteq> []" and b: "[''b.org''] \<noteq> []" by simp_all
  from exa_domain_filters_exclusive [OF refl a refl b, of "\<lambda>i q. Inr []" "[''first'', ''second'']" None]
  show ?thesis using a b by (intro conjI)
qed


section \<open>Synthetic scores\<close>



























section \<open>The adaptive delay of pubmed_search_async\<close>

lemma pubmed_delay_at_most_start: "delay (pubmed_run api qs) \<le> 1"
  using pubmed_delay_never_grows [of "\<lparr>search_docs = [], delay = 1, trace = []\<rparr>" api 0 qs]
  by (simp add: pubmed_run_def)

text \<open>
  C4 does not hold of the code. The delay starts at 1 and is multiplied by 0.9 (floor 0.5)
  after a query with results, as the claim says: after three such queries it is
  \<open>max 0.5 (1.0 * 0.9 ^ 3) = 0.729\<close>. But a query whose request raises leaves the delay as
  it is: \<open>process_single_query\<close> catches every exception itself and returns a response with
  the error, so the branch of the main loop that multiplies the delay by 1.5 never runs.
  Below, the fourth of five queries raises (its response carries the error); the delay after
  it is still 0.729, not \<open>min 5.0 (0.729 * 1.5)\<close>, and the pause before the fifth query is
  0.729s. The delays are exact rationals here.
\<close>

theorem pubmed_delay_after_failure:
  "delay (pubmed_run
       (\<lambda>i q. if i = 3 then Inl (ProviderError ''HTTP Error 429: Too Many Requests'')
               else Inr [\<lparr>pm_uid = Some ''1'', pm_title = Some ''A'', pm_published = None,
                          pm_copyright = None, pm_summary = Some ''S''\<rparr>])
       [''q1'', ''q2'', ''q3'']) = max (1 / 2) (1 * (9 / 10) ^ 3)
   \<and> delay (pubmed_run
       (\<lambda>i q. if i = 3 then Inl (ProviderError ''HTTP Error 429: Too Many Requests'')
               else Inr [\<lparr>pm_uid = Some ''1'', pm_title = Some ''A'', pm_published = None,
                          pm_copyright = None, pm_summary = Some ''S''\<rparr>])
       [''q1'', ''q2'', ''q3'', ''q4'']) = 729 / 1000
   \<and> delay (pubmed_run
       (\<lambda>i q. if i = 3 then Inl (ProviderError ''HTTP Error 429: Too Many Requests'')
               else Inr [\<lparr>pm_uid = Some ''1'', pm_title = Some ''A'', pm_published = None,
                          pm_copyright = None, pm_summary = Some ''S''\<rparr>])
       [''q1'', ''q2'', ''q3'', ''q4'']) \<noteq> min 5 (max (1 / 2) (1 * (9 / 10) ^ 3) * (3 / 2))
   \<and> error (fst (pubmed_search_async
       (\<lambda>i q. if i = 3 then Inl (ProviderError ''HTTP Error 429: Too Many Requests'')
               else Inr [\<lparr>pm_uid = Some ''1'', pm_title = Some ''A'', pm_published = None,
                          pm_copyright = None, pm_summary = Some ''S''\<rparr>])
       [''q1'', ''q2'', ''q3'', ''q4'', ''q5'']) ! 3)
       = Some ''HTTP Error 429: Too Many Requests''
   \<and> snd (pubmed_search_async
       (\<lambda>i q. if i = 3 then Inl (ProviderError ''HTTP Error 429: Too Many Requests'')
               else Inr [\<lparr>pm_uid = Some ''1'', pm_title = Some ''A'', pm_published = None,
                          pm_copyright = None, pm_summary = Some ''S''\<rparr>])
       [''q1'', ''q2'', ''q3'', ''q4'', ''q5''])
       = [Request ''q1'', Sleep (9 / 10), Request ''q2'', Sleep (81 / 100), Request ''q3'',
          Sleep (729 / 1000), Request ''q4'', Sleep (729 / 1000), Request ''q5'']"
  by (simp add: pubmed_search_async_def pubmed_run_def pubmed_process_single_query_def
        error_response_def str_exn_def Let_def power3_eq_cube)


end
